theory Spec2Isabelle
  imports Main "HOL-Library.AList" "HOL-Library.Signed_Division" "HOL-Library.Code_Target_Numeral"
begin

section \<open>A process supervisor (index.js): shallow embedding\<close>

text \<open>
  The program is a single Node.js script. It keeps three global variables
  (\<open>processes\<close>, \<open>startTimes\<close>, \<open>logStream\<close>), spawns one child per numeric
  directory name, and reacts to events: output of a child, exit of a child, the
  5 second restart timer, the 30 minute interval and lines typed by the operator.
  Every handler runs to completion before the next event is delivered, so the program
  is modelled as a function from a state and an event to the next state.
  An exception that no handler catches ends the Node process; the result of the handler
  is then \<open>Inl\<close> of the error and of the state in which it was raised, so that what the
  handler had done before it raised can be read off.
\<close>

subsection \<open>Numbers and strings as JavaScript renders them\<close>

definition nl :: char where
  "nl = CHR 0x0A"

definition digit_char :: "nat \<Rightarrow> char" where
  "digit_char n = ''0123456789'' ! (n mod 10)"

text \<open>Decimal digits of a natural number, most significant first.\<close>

fun show_nat :: "nat \<Rightarrow> string" where
  "show_nat n = (if n < 10 then [digit_char n] else show_nat (n div 10) @ [digit_char n])"

declare show_nat.simps [simp del]

text \<open>What a template literal prints for an integer-valued number.\<close>

definition show_int :: "int \<Rightarrow> string" where
  "show_int i = (if i < 0 then CHR ''-'' # show_nat (nat (- i)) else show_nat (nat i))"

text \<open>\<open>\d\<close> of a JavaScript regular expression: the ten ASCII digits.\<close>

definition is_digit :: "char \<Rightarrow> bool" where
  "is_digit c = (c \<in> set ''0123456789'')"

text \<open>\<open>/^\d+$/.test(s)\<close>: a non-empty string of digits.\<close>

definition is_numeric :: "string \<Rightarrow> bool" where
  "is_numeric s = (s \<noteq> [] \<and> list_all is_digit s)"

text \<open>\<open>/^r\d+$/.test(s)\<close> and \<open>/^s\d+$/.test(s)\<close>: a letter, then digits.\<close>

definition is_letter_digits :: "char \<Rightarrow> string \<Rightarrow> bool" where
  "is_letter_digits l s = (case s of [] \<Rightarrow> False | c # rest \<Rightarrow> c = l \<and> is_numeric rest)"

text \<open>\<open>s.padEnd(n)\<close>: spaces are added on the right up to length \<open>n\<close>.\<close>

definition padEnd :: "nat \<Rightarrow> string \<Rightarrow> string" where
  "padEnd n s = s @ replicate (n - length s) CHR '' ''"

text \<open>
  \<open>s.trim()\<close>. The white space of ASCII: tab, line feed, vertical tab, form feed,
  carriage return and space.
\<close>

definition is_space :: "char \<Rightarrow> bool" where
  "is_space c = (c \<in> set [CHR 0x09, CHR 0x0A, CHR 0x0B, CHR 0x0C, CHR 0x0D, CHR 0x20])"

definition trim :: "string \<Rightarrow> string" where
  "trim s = rev (dropWhile is_space (rev (dropWhile is_space s)))"

subsection \<open>formatDuration\<close>

text \<open>
  \<^verbatim>\<open>
  function formatDuration(ms) {
      const sec = Math.floor(ms / 1000) % 60;
      const min = Math.floor(ms / (1000 * 60)) % 60;
      const hr = Math.floor(ms / (1000 * 60 * 60));
      return `${hr}h ${min}m ${sec}s`;
  }
  \<close>
  The argument is the difference of two readings of \<open>Date.now()\<close>, an integer.
  \<open>Math.floor\<close> of the quotient is \<open>div\<close> on \<open>int\<close> (it rounds down); the
  remainder operator of JavaScript takes the sign of the dividend, which is \<open>smod\<close>.
\<close>

definition formatDuration :: "int \<Rightarrow> string" where
  "formatDuration ms =
     (let sec = (ms div 1000) smod 60;
          mn = (ms div (1000 * 60)) smod 60;
          hr = ms div (1000 * 60 * 60)
      in show_int hr @ ''h '' @ show_int mn @ ''m '' @ show_int sec @ ''s'')"

subsection \<open>timestamp\<close>

text \<open>
  \<^verbatim>\<open>
  function timestamp() {
      const now = new Date();
      return now.toISOString().replace("T", " ").split(".")[0];
  }
  \<close>
  \<open>new Date()\<close> holds the reading of the clock, milliseconds since 1970-01-01 UTC;
  the model takes it as an argument. \<open>toISOString\<close> is a built-in. Its calendar is
  the Gregorian one: the year is found by counting whole years from 1970, the month by
  counting whole months of that year. The year is printed with four digits up to 9999
  and as \<open>+\<close> with six digits beyond.
\<close>

definition leap :: "nat \<Rightarrow> bool" where
  "leap y = (y mod 4 = 0 \<and> (y mod 100 \<noteq> 0 \<or> y mod 400 = 0))"

definition days_in_year :: "nat \<Rightarrow> nat" where
  "days_in_year y = (if leap y then 366 else 365)"

definition month_lengths :: "nat \<Rightarrow> nat list" where
  "month_lengths y = [31, if leap y then 29 else 28, 31, 30, 31, 30, 31, 31, 30, 31, 30, 31]"

text \<open>The year that day \<open>d\<close>, counted from 1 January of year \<open>y\<close>, falls in, and the
  day within that year.\<close>

function year_from :: "nat \<Rightarrow> nat \<Rightarrow> nat \<times> nat" where
  "year_from y d =
     (if d < days_in_year y then (y, d) else year_from (y + 1) (d - days_in_year y))"
  by pat_completeness auto
termination
  by (relation "measure snd") (auto simp: days_in_year_def)

declare year_from.simps [simp del]

fun month_from :: "nat \<Rightarrow> nat \<Rightarrow> nat list \<Rightarrow> nat \<times> nat" where
  "month_from m d [] = (m, d)"
| "month_from m d (l # ls) = (if d < l then (m, d) else month_from (m + 1) (d - l) ls)"

text \<open>Year, month (from 1) and day of the month (from 1) of a day counted from
  1970-01-01.\<close>

definition civil_from_days :: "nat \<Rightarrow> nat \<times> nat \<times> nat" where
  "civil_from_days days =
     (case year_from 1970 days of (y, doy) \<Rightarrow>
        (case month_from 1 doy (month_lengths y) of (m, d) \<Rightarrow> (y, m, d + 1)))"

text \<open>A number printed with at least \<open>w\<close> digits, zeros added on the left.\<close>

definition pad :: "nat \<Rightarrow> nat \<Rightarrow> string" where
  "pad w n = replicate (w - length (show_nat n)) CHR ''0'' @ show_nat n"

definition toISOString :: "nat \<Rightarrow> string" where
  "toISOString t =
     (case civil_from_days (t div 86400000) of (y, m, d) \<Rightarrow>
        (if y \<le> 9999 then pad 4 y else CHR ''+'' # pad 6 y)
        @ ''-'' @ pad 2 m @ ''-'' @ pad 2 d
        @ ''T'' @ pad 2 (t div 3600000 mod 24)
        @ '':'' @ pad 2 (t div 60000 mod 60)
        @ '':'' @ pad 2 (t div 1000 mod 60)
        @ ''.'' @ pad 3 (t mod 1000) @ ''Z'')"

text \<open>\<open>s.replace("T", " ")\<close>: the first occurrence of the character only.\<close>

fun replace_first :: "char \<Rightarrow> char \<Rightarrow> string \<Rightarrow> string" where
  "replace_first a b [] = []"
| "replace_first a b (c # cs) = (if c = a then b # cs else c # replace_first a b cs)"

text \<open>\<open>s.split(".")[0]\<close>: what stands before the first dot (all of \<open>s\<close> without one).\<close>

definition before_dot :: "string \<Rightarrow> string" where
  "before_dot s = takeWhile (\<lambda>c. c \<noteq> CHR ''.'') s"

definition timestamp :: "nat \<Rightarrow> string" where
  "timestamp t = before_dot (replace_first CHR ''T'' CHR '' '' (toISOString t))"

subsection \<open>The environment and the state\<close>

text \<open>
  What a handler reads from outside while it runs: the clock (\<open>Date.now()\<close> and
  \<open>new Date()\<close>, taken to give one value during one handler) and the entries of the
  working directory as \<open>fs.readdirSync("./")\<close> would return them, \<open>None\<close> when
  the call throws.
\<close>

record world =
  now :: nat
  dir :: "string list option"

datatype error = ReaddirError | UnhandledChildError

text \<open>
  The object that \<open>spawn\<close> returns. \<open>hid\<close> is its identity (the number of children
  spawned before it); \<open>pid\<close> is \<open>bot.pid\<close>, undefined when the spawn failed.
\<close>

record handle =
  hid :: nat
  pid :: "nat option"

text \<open>
  A spawned child, as far as the supervisor is concerned: the \<open>id\<close> its three
  listeners close over, whether \<open>kill()\<close> was called on it, and whether its
  \<open>exit\<close> event has been delivered.
\<close>

record child =
  wid :: string
  signalled :: bool
  exited :: bool

datatype chan = Stdout | Stderr

text \<open>
  \<open>processes\<close> and \<open>startTimes\<close> are JavaScript objects used as dictionaries:
  association lists in insertion order, written with \<open>AList.update\<close> (an existing
  key keeps its place) and \<open>AList.delete\<close>. \<open>timers\<close> are the pending
  \<open>setTimeout(() => startBot(id), 5000)\<close> calls, each with the time it is due,
  oldest first. \<open>console\<close> is what was written to the terminal, \<open>files\<close> the
  content of the log files. \<open>os_pid\<close> is the operating system's answer to the n-th
  spawn.
\<close>

record state =
  processes :: "(string \<times> handle) list"
  startTimes :: "(string \<times> nat) list"
  logStream :: "string option"
  children :: "child list"
  timers :: "(nat \<times> string) list"
  console :: "(chan \<times> string) list"
  files :: "string \<rightharpoonup> string"
  os_pid :: "nat \<Rightarrow> nat option"

text \<open>
  What a handler leaves behind: the next state when it returns, the error and the state
  at the raise when it throws.
\<close>

type_synonym outcome = "(error \<times> state) + state"

definition init :: "(nat \<Rightarrow> nat option) \<Rightarrow> state" where
  "init os = \<lparr>processes = [], startTimes = [], logStream = None, children = [],
     timers = [], console = [], files = Map.empty, os_pid = os\<rparr>"

subsection \<open>The order of Object.keys\<close>

text \<open>
  \<open>Object.keys\<close> lists the keys that are array indices first (canonical decimal
  numerals below \<open>2^32 - 1\<close>), in ascending numeric order, then the other string keys
  in insertion order.
\<close>

definition digit_val :: "char \<Rightarrow> nat" where
  "digit_val c = of_char c - 48"

definition nat_of_digits :: "string \<Rightarrow> nat" where
  "nat_of_digits s = foldl (\<lambda>n c. 10 * n + digit_val c) 0 s"

definition is_array_index :: "string \<Rightarrow> bool" where
  "is_array_index k =
     (is_numeric k \<and> (k = ''0'' \<or> hd k \<noteq> CHR ''0'') \<and> length k \<le> 10
      \<and> nat_of_digits k < 4294967295)"

definition object_keys :: "(string \<times> 'v) list \<Rightarrow> string list" where
  "object_keys al =
     sort_key nat_of_digits (filter is_array_index (map fst al))
     @ filter (\<lambda>k. \<not> is_array_index k) (map fst al)"

subsection \<open>Discovery and logging\<close>

text \<open>
  \<^verbatim>\<open>
  function listProjects() {
      return fs.readdirSync("./").filter((dir) => /^\d+$/.test(dir));
  }
  \<close>
  Nothing catches what \<open>readdirSync\<close> throws.
\<close>

definition listProjects :: "world \<Rightarrow> error + string list" where
  "listProjects w =
     (case dir w of
        None \<Rightarrow> Inl ReaddirError
      | Some names \<Rightarrow> Inr (filter is_numeric names))"

text \<open>
  \<^verbatim>\<open>
  function logToFile(id, message) {
      const logFile = path.join(logsDir, `${id}.txt`);
      fs.appendFileSync(logFile, `[${timestamp()}] ${message}`);
  }
  \<close>
  The model writes \<open>i\<close> for the source's \<open>id\<close> throughout. File names are
  relative to the directory of the script. Appending creates the file
  when it is absent. The append is taken to succeed.
\<close>

definition logFile :: "string \<Rightarrow> string" where
  "logFile i = ''logs/'' @ i @ ''.txt''"

definition content :: "state \<Rightarrow> string \<Rightarrow> string" where
  "content s f = (case files s f of None \<Rightarrow> [] | Some c \<Rightarrow> c)"

definition logToFile :: "nat \<Rightarrow> string \<Rightarrow> string \<Rightarrow> state \<Rightarrow> state" where
  "logToFile t i message s =
     s\<lparr>files := (files s)(logFile i \<mapsto> content s (logFile i) @ ''['' @ timestamp t @ ''] '' @ message)\<rparr>"

definition console_write :: "chan \<Rightarrow> string \<Rightarrow> state \<Rightarrow> state" where
  "console_write c text s = s\<lparr>console := console s @ [(c, text)]\<rparr>"

text \<open>\<open>console.log(line)\<close>: the line and a line feed, on standard output.\<close>

definition console_log :: "string \<Rightarrow> state \<Rightarrow> state" where
  "console_log line s = console_write Stdout (line @ [nl]) s"

definition stamped :: "nat \<Rightarrow> string \<Rightarrow> string" where
  "stamped t msg = ''['' @ timestamp t @ ''] '' @ msg"

subsection \<open>The listeners of a child\<close>

text \<open>
  \<^verbatim>\<open>
  bot.stdout.on("data", (data) => {
      const msg = `[${id}] ${data}`;
      if (logStream === id) process.stdout.write(`[${timestamp()}] ${msg}`);
      logToFile(id, msg);
  });
  bot.stderr.on("data", (data) => {
      const msg = `[${id} ERROR] ${data}`;
      if (logStream === id) process.stderr.write(`[${timestamp()}] ${msg}`);
      logToFile(id, msg);
  });
  \<close>
  \<open>data\<close> is the text of the chunk.
\<close>

definition on_stdout :: "nat \<Rightarrow> string \<Rightarrow> string \<Rightarrow> state \<Rightarrow> state" where
  "on_stdout t i data s =
     (let msg = ''['' @ i @ ''] '' @ data;
          s1 = (if logStream s = Some i then console_write Stdout (stamped t msg) s else s)
      in logToFile t i msg s1)"

definition on_stderr :: "nat \<Rightarrow> string \<Rightarrow> string \<Rightarrow> state \<Rightarrow> state" where
  "on_stderr t i data s =
     (let msg = ''['' @ i @ '' ERROR] '' @ data;
          s1 = (if logStream s = Some i then console_write Stderr (stamped t msg) s else s)
      in logToFile t i msg s1)"

text \<open>
  \<^verbatim>\<open>
  bot.on("exit", (code) => {
      const msg = `${id}/index.js exited with code ${code}. Restarting in 5s...\n`;
      console.log(`[${timestamp()}] ${msg.trim()}`);
      logToFile(id, msg);
      delete processes[id];
      delete startTimes[id];
      setTimeout(() => startBot(id), 5000);
  });
  \<close>
  \<open>code\<close> is \<open>null\<close> when a signal ended the child.
\<close>

definition show_code :: "int option \<Rightarrow> string" where
  "show_code code = (case code of None \<Rightarrow> ''null'' | Some c \<Rightarrow> show_int c)"

definition exit_msg :: "string \<Rightarrow> int option \<Rightarrow> string" where
  "exit_msg i code =
     i @ ''/index.js exited with code '' @ show_code code @ ''. Restarting in 5s...'' @ [nl]"

definition on_exit :: "nat \<Rightarrow> string \<Rightarrow> int option \<Rightarrow> state \<Rightarrow> state" where
  "on_exit t i code s =
     (let msg = exit_msg i code;
          s1 = console_log (stamped t (trim msg)) s;
          s2 = logToFile t i msg s1;
          s3 = s2\<lparr>processes := AList.delete i (processes s2)\<rparr>;
          s4 = s3\<lparr>startTimes := AList.delete i (startTimes s3)\<rparr>
      in s4\<lparr>timers := timers s4 @ [(t + 5000, i)]\<rparr>)"

subsection \<open>startBot, stopBot, restartBot\<close>

text \<open>
  \<^verbatim>\<open>
  function startBot(id) {
      if (processes[id]) return;
      const bot = spawn("node", ["index.js"], { cwd: `./${id}`, env: process.env,
          stdio: ["pipe", "pipe", "pipe"] });
      processes[id] = bot;
      startTimes[id] = Date.now();
      bot.stdout.on("data", ...); bot.stderr.on("data", ...); bot.on("exit", ...);
      const msg = `Started ${id}/index.js (PID: ${bot.pid})\n`;
      console.log(`[${timestamp()}] ${msg.trim()}`);
      logToFile(id, msg);
  }
  \<close>
  A handle is an object, so \<open>processes[id]\<close> is truthy exactly when the key is
  there. The new child joins \<open>children\<close> with the \<open>id\<close> its listeners hold;
  \<open>h\<close> is the source's \<open>bot\<close>.
\<close>

definition show_pid :: "nat option \<Rightarrow> string" where
  "show_pid p = (case p of None \<Rightarrow> ''undefined'' | Some n \<Rightarrow> show_nat n)"

definition start_msg :: "string \<Rightarrow> nat option \<Rightarrow> string" where
  "start_msg i p = ''Started '' @ i @ ''/index.js (PID: '' @ show_pid p @ '')'' @ [nl]"

definition startBot :: "nat \<Rightarrow> string \<Rightarrow> state \<Rightarrow> state" where
  "startBot t i s =
     (if map_of (processes s) i \<noteq> None then s
      else
        (let h = \<lparr>hid = length (children s), pid = os_pid s (length (children s))\<rparr>;
             s1 = s\<lparr>children := children s @ [\<lparr>wid = i, signalled = False, exited = False\<rparr>]\<rparr>;
             s2 = s1\<lparr>processes := AList.update i h (processes s1)\<rparr>;
             s3 = s2\<lparr>startTimes := AList.update i t (startTimes s2)\<rparr>;
             msg = start_msg i (pid h);
             s4 = console_log (stamped t (trim msg)) s3
         in logToFile t i msg s4))"

text \<open>\<open>bot.kill()\<close>: the child is sent SIGTERM, unless it has exited already.\<close>

definition kill :: "handle \<Rightarrow> state \<Rightarrow> state" where
  "kill h s =
     (if hid h < length (children s) \<and> \<not> exited (children s ! hid h)
      then s\<lparr>children := (children s)[hid h := (children s ! hid h)\<lparr>signalled := True\<rparr>]\<rparr>
      else s)"

text \<open>
  \<^verbatim>\<open>
  function stopBot(id) {
      if (processes[id]) {
          processes[id].kill();
          delete processes[id];
          delete startTimes[id];
          const msg = `Stopped bot ${id}\n`;
          console.log(`[${timestamp()}] ${msg.trim()}`);
          logToFile(id, msg);
      } else {
          console.log(`Bot ${id} not running.`);
      }
  }
  \<close>
\<close>

definition stop_msg :: "string \<Rightarrow> string" where
  "stop_msg i = ''Stopped bot '' @ i @ [nl]"

definition stopBot :: "nat \<Rightarrow> string \<Rightarrow> state \<Rightarrow> state" where
  "stopBot t i s =
     (case map_of (processes s) i of
        Some h \<Rightarrow>
          (let s1 = kill h s;
               s2 = s1\<lparr>processes := AList.delete i (processes s1)\<rparr>;
               s3 = s2\<lparr>startTimes := AList.delete i (startTimes s2)\<rparr>;
               msg = stop_msg i;
               s4 = console_log (stamped t (trim msg)) s3
           in logToFile t i msg s4)
      | None \<Rightarrow> console_log (''Bot '' @ i @ '' not running.'') s)"

text \<open>
  \<^verbatim>\<open>
  function restartBot(id) {
      if (processes[id]) {
          processes[id].kill();
          console.log(`[${timestamp()}] Restarting bot ${id}...`);
      } else {
          console.log(`[${timestamp()}] Bot ${id} not running, starting...`);
          startBot(id);
      }
  }
  \<close>
\<close>

definition restartBot :: "nat \<Rightarrow> string \<Rightarrow> state \<Rightarrow> state" where
  "restartBot t i s =
     (case map_of (processes s) i of
        Some h \<Rightarrow> console_log (stamped t (''Restarting bot '' @ i @ ''...'')) (kill h s)
      | None \<Rightarrow>
          startBot t i (console_log (stamped t (''Bot '' @ i @ '' not running, starting...'')) s))"

subsection \<open>showStatus\<close>

text \<open>
  \<^verbatim>\<open>
  function showStatus() {
      const ids = listProjects();
      console.log("\nBot Status:\n");
      console.log("ID   Status     PID     Uptime");
      console.log("--------------------------------------");
      ids.forEach((id) => {
          if (processes[id]) {
              const uptime = formatDuration(Date.now() - startTimes[id]);
              console.log(`${id.padEnd(4)} RUNNING   ${String(processes[id].pid).padEnd(6)} ${uptime}`);
          } else {
              console.log(`${id.padEnd(4)} STOPPED`);
          }
      });
      console.log("");
  }
  \<close>
  Without a start time the subtraction gives \<open>NaN\<close>, and so do the three fields of
  the duration.
\<close>

definition uptime :: "nat \<Rightarrow> string \<Rightarrow> state \<Rightarrow> string" where
  "uptime t i s =
     (case map_of (startTimes s) i of
        Some t0 \<Rightarrow> formatDuration (int t - int t0)
      | None \<Rightarrow> ''NaNh NaNm NaNs'')"

definition status_row :: "nat \<Rightarrow> state \<Rightarrow> string \<Rightarrow> string" where
  "status_row t s i =
     (case map_of (processes s) i of
        Some h \<Rightarrow>
          padEnd 4 i @ '' RUNNING   '' @ padEnd 6 (show_pid (pid h)) @ '' '' @ uptime t i s
      | None \<Rightarrow> padEnd 4 i @ '' STOPPED'')"

definition status_header :: "string list" where
  "status_header =
     [[nl] @ ''Bot Status:'' @ [nl],
      ''ID   Status     PID     Uptime'',
      ''--------------------------------------'']"

definition showStatus :: "world \<Rightarrow> state \<Rightarrow> outcome" where
  "showStatus w s =
     (case listProjects w of
        Inl e \<Rightarrow> Inl (e, s)
      | Inr ids \<Rightarrow>
          (let s1 = fold console_log status_header s;
               s2 = fold (\<lambda>i s'. console_log (status_row (now w) s' i) s') ids s1
           in Inr (console_log [] s2)))"

subsection \<open>The interval and the operator's lines\<close>

text \<open>
  \<^verbatim>\<open>
  listProjects().forEach(startBot);

  setInterval(() => {
      const current = listProjects();
      current.forEach((id) => { if (!processes[id]) startBot(id); });
      Object.keys(processes).forEach((id) => {
          if (!current.includes(id)) {
              console.log(`[${timestamp()}] Project ${id} folder deleted, stopping bot...`);
              stopBot(id);
          }
      });
  }, 30 * 60 * 1000);
  \<close>
  \<open>xs.forEach(f)\<close> is \<open>fold\<close> over the state. \<open>Object.keys\<close> is taken once,
  before the second loop starts. The creation of the \<open>logs\<close> directory and the
  command legend printed at start-up are left out.
\<close>

definition startup :: "world \<Rightarrow> state \<Rightarrow> outcome" where
  "startup w s =
     (case listProjects w of
        Inl e \<Rightarrow> Inl (e, s)
      | Inr ids \<Rightarrow> Inr (fold (startBot (now w)) ids s))"

definition tick :: "world \<Rightarrow> state \<Rightarrow> outcome" where
  "tick w s =
     (case listProjects w of
        Inl e \<Rightarrow> Inl (e, s)
      | Inr current \<Rightarrow>
          (let s1 = fold (\<lambda>i s'. if map_of (processes s') i = None
                                  then startBot (now w) i s' else s') current s;
               s2 = fold (\<lambda>i s'. if i \<notin> set current
                                  then stopBot (now w) i
                                         (console_log (stamped (now w)
                                            (''Project '' @ i @ '' folder deleted, stopping bot...'')) s')
                                  else s') (object_keys (processes s1)) s1
           in Inr s2))"

text \<open>
  \<^verbatim>\<open>
  rl.on("line", (input) => {
      if (/^\d+$/.test(input)) logStream = input;
      else if (input === "0") logStream = null;
      else if (/^r\d+$/.test(input)) restartBot(input.slice(1));
      else if (input === "ra") Object.keys(processes).forEach(restartBot);
      else if (/^s\d+$/.test(input)) stopBot(input.slice(1));
      else if (input === "sa") Object.keys(processes).forEach(stopBot);
      else if (input === "ls") showStatus();
  });
  \<close>
\<close>

definition on_line :: "world \<Rightarrow> string \<Rightarrow> state \<Rightarrow> outcome" where
  "on_line w input s =
     (if is_numeric input then Inr (s\<lparr>logStream := Some input\<rparr>)
      else if input = ''0'' then Inr (s\<lparr>logStream := None\<rparr>)
      else if is_letter_digits CHR ''r'' input then Inr (restartBot (now w) (tl input) s)
      else if input = ''ra'' then Inr (fold (restartBot (now w)) (object_keys (processes s)) s)
      else if is_letter_digits CHR ''s'' input then Inr (stopBot (now w) (tl input) s)
      else if input = ''sa'' then Inr (fold (stopBot (now w)) (object_keys (processes s)) s)
      else if input = ''ls'' then showStatus w s
      else Inr s)"

subsection \<open>Events\<close>

text \<open>
  What the event loop delivers. \<open>Data\<close> and \<open>Exit\<close> name the child by its handle;
  a child emits \<open>exit\<close> once. \<open>Timeout\<close> runs the oldest pending restart timer when
  it is due (all timers have the same delay, so they run in the order they were set); the
  clock that times them is taken to be the one \<open>Date.now()\<close> reads.
  \<open>ChildError\<close> is the \<open>error\<close> event of a child that could not be spawned: no
  listener is registered for it, so Node throws.
\<close>

datatype event =
    Line string
  | Tick
  | Timeout
  | Data nat chan string
  | Exit nat "int option"
  | ChildError nat

definition step :: "world \<Rightarrow> event \<Rightarrow> state \<Rightarrow> outcome" where
  "step w e s =
     (case e of
        Line input \<Rightarrow> on_line w input s
      | Tick \<Rightarrow> tick w s
      | Timeout \<Rightarrow>
          (case timers s of
             [] \<Rightarrow> Inr s
           | (due, i) # rest \<Rightarrow>
               if due \<le> now w then Inr (startBot (now w) i (s\<lparr>timers := rest\<rparr>)) else Inr s)
      | Data h c data \<Rightarrow>
          (if h < length (children s)
           then Inr ((case c of Stdout \<Rightarrow> on_stdout | Stderr \<Rightarrow> on_stderr)
                       (now w) (wid (children s ! h)) data s)
           else Inr s)
      | Exit h code \<Rightarrow>
          (if h < length (children s) \<and> \<not> exited (children s ! h)
           then Inr (on_exit (now w) (wid (children s ! h)) code
                       (s\<lparr>children := (children s)[h := (children s ! h)\<lparr>exited := True\<rparr>]\<rparr>))
           else Inr s)
      | ChildError h \<Rightarrow> (if h < length (children s) then Inl (UnhandledChildError, s) else Inr s))"

text \<open>A run of the event loop: it ends at the first uncaught exception.\<close>

fun run :: "state \<Rightarrow> (world \<times> event) list \<Rightarrow> outcome" where
  "run s [] = Inr s"
| "run s ((w, e) # es) = (case step w e s of Inl err \<Rightarrow> Inl err | Inr s' \<Rightarrow> run s' es)"

text \<open>The whole program: the first pass over the directory, then the events.\<close>

definition supervisor :: "(nat \<Rightarrow> nat option) \<Rightarrow> world \<Rightarrow> (world \<times> event) list \<Rightarrow> outcome" where
  "supervisor os w0 es =
     (case startup w0 (init os) of Inl err \<Rightarrow> Inl err | Inr s \<Rightarrow> run s es)"

subsection \<open>Notions used in the statements\<close>

text \<open>
  A string has the form of a pattern when it has the pattern's length, a digit wherever
  the pattern has one of the letters \<open>Y M D H S\<close>, and the pattern's own character
  everywhere else.
\<close>

fun has_form :: "string \<Rightarrow> string \<Rightarrow> bool" where
  "has_form [] [] = True"
| "has_form (p # ps) (c # cs) =
     ((if p \<in> set ''YMDHS'' then is_digit c else c = p) \<and> has_form ps cs)"
| "has_form _ _ = False"

text \<open>
  The registry is in order when no key of \<open>processes\<close> occurs twice and
  \<open>startTimes\<close> has the same keys in the same order.
\<close>

definition registry_ok :: "state \<Rightarrow> bool" where
  "registry_ok s =
     (distinct (map fst (processes s)) \<and> map fst (processes s) = map fst (startTimes s))"

text \<open>
  Every log file of \<open>s'\<close> is the file of \<open>s\<close> followed by entries that each start with
  the bracketed time stamp of \<open>t\<close>.
\<close>

definition appended :: "nat \<Rightarrow> state \<Rightarrow> state \<Rightarrow> bool" where
  "appended t s s' = (\<forall>f. \<exists>ms. content s' f = content s f @ concat (map (stamped t) ms))"

text \<open>
  Days from the start of year 1 to the start of year \<open>y\<close> are
  \<open>days_upto y - centuries_upto y - 365\<close>; the two parts are kept apart so that no
  subtraction is needed.
\<close>

definition days_upto :: "nat \<Rightarrow> nat" where
  "days_upto y = 365 * y + (y - 1) div 4 + (y - 1) div 400"

definition centuries_upto :: "nat \<Rightarrow> nat" where
  "centuries_upto y = (y - 1) div 100"

section \<open>Properties\<close>

subsection \<open>Durations\<close>

lemma smod_nonneg: "0 \<le> a \<Longrightarrow> 0 < b \<Longrightarrow> (a::int) smod b = a mod b"
  by (simp add: smod_int_alt_def sgn_if)

lemma show_int_nonneg: "0 \<le> i \<Longrightarrow> show_int i = show_nat (nat i)"
  by (simp add: show_int_def)

lemma formatDuration_nonneg:
  assumes "0 \<le> ms"
  shows "formatDuration ms =
           show_nat (nat (ms div 3600000)) @ ''h '' @ show_nat (nat (ms div 60000 mod 60))
           @ ''m '' @ show_nat (nat (ms div 1000 mod 60)) @ ''s''"
proof -
  have a: "0 \<le> ms div 1000" and b: "0 \<le> ms div 60000" and c: "0 \<le> ms div 3600000"
    using assms by (simp_all add: pos_imp_zdiv_nonneg_iff)
  show ?thesis
    using a b c by (simp add: formatDuration_def smod_nonneg show_int_nonneg)
qed

lemma hms_sum: "3600 * ((ms::int) div 3600000) + 60 * (ms div 60000 mod 60) + ms div 1000 mod 60 = ms div 1000"
proof -
  define q where "q = ms div 1000"
  define r where "r = q div 60"
  have 1: "ms div 60000 = r" unfolding q_def r_def by (simp add: zdiv_zmult2_eq)
  have 2: "ms div 3600000 = r div 60" unfolding q_def r_def by (simp add: zdiv_zmult2_eq)
  have 3: "q = 60 * r + q mod 60" unfolding r_def by simp
  have 4: "r = 60 * (r div 60) + r mod 60" by simp
  have "3600 * (r div 60) + 60 * (r mod 60) + q mod 60 = q"
    using 3 4 by linarith
  then show ?thesis unfolding 1 2 q_def[symmetric] .
qed

text \<open>
  C7. For an elapsed time \<open>ms \<ge> 0\<close>, \<open>formatDuration\<close> prints the whole hours, the
  minutes and the seconds, each always present, as \<open>Hh Mm Ss\<close>; the minutes and the
  seconds are below 60 and the three make up the whole seconds of \<open>ms\<close>. 3661 seconds
  give \<open>1h 1m 1s\<close>.
\<close>

theorem formatDuration_hms:
  "(0 \<le> ms \<longrightarrow>
      formatDuration ms =
        show_nat (nat (ms div 3600000)) @ ''h '' @ show_nat (nat (ms div 60000 mod 60))
        @ ''m '' @ show_nat (nat (ms div 1000 mod 60)) @ ''s''
      \<and> nat (ms div 60000 mod 60) < 60 \<and> nat (ms div 1000 mod 60) < 60
      \<and> 3600 * (ms div 3600000) + 60 * (ms div 60000 mod 60) + ms div 1000 mod 60 = ms div 1000)
   \<and> formatDuration (3661 * 1000) = ''1h 1m 1s''"
proof (intro conjI impI)
  assume "0 \<le> ms"
  then show "formatDuration ms =
        show_nat (nat (ms div 3600000)) @ ''h '' @ show_nat (nat (ms div 60000 mod 60))
        @ ''m '' @ show_nat (nat (ms div 1000 mod 60)) @ ''s''"
    by (rule formatDuration_nonneg)
next
  show "nat (ms div 60000 mod 60) < 60" by simp
next
  show "nat (ms div 1000 mod 60) < 60" by simp
next
  show "3600 * (ms div 3600000) + 60 * (ms div 60000 mod 60) + ms div 1000 mod 60 = ms div 1000"
    by (rule hms_sum)
next
  show "formatDuration (3661 * 1000) = ''1h 1m 1s''" by code_simp
qed

theorem formatDuration_hms_witness:
  "(0::int) \<le> 7325999 \<and> formatDuration 7325999 = ''2h 2m 5s''"
proof -
  have h: "(0::int) \<le> 7325999" by simp
  have "formatDuration 7325999 =
          show_nat (nat (7325999 div 3600000)) @ ''h '' @ show_nat (nat (7325999 div 60000 mod 60))
          @ ''m '' @ show_nat (nat (7325999 div 1000 mod 60)) @ ''s''"
    using formatDuration_hms [of 7325999] h by blast
  also have "\<dots> = ''2h 2m 5s''" by code_simp
  finally show ?thesis using h by simp
qed

subsection \<open>Time stamps\<close>

lemma digit_char_cases:
  "digit_char n \<in> set ''0123456789''"
proof -
  have "n mod 10 < length ''0123456789''" by simp
  then show ?thesis unfolding digit_char_def by (rule nth_mem)
qed

lemma is_digit_digit_char [simp]: "is_digit (digit_char n)"
  using digit_char_cases by (simp add: is_digit_def)

lemma digit_char_neq [simp]: "digit_char n \<noteq> CHR ''T''" "digit_char n \<noteq> CHR ''.''"
  using digit_char_cases [of n] by auto

lemma digit_char_0 [simp]: "digit_char 0 = CHR ''0''"
  by (simp add: digit_char_def)

lemma show_nat_1: "n < 10 \<Longrightarrow> show_nat n = [digit_char n]"
  by (simp add: show_nat.simps)

lemma show_nat_2: "10 \<le> n \<Longrightarrow> n < 100 \<Longrightarrow> show_nat n = [digit_char (n div 10), digit_char n]"
  by (subst show_nat.simps) (simp add: show_nat_1)

lemma show_nat_3:
  "100 \<le> n \<Longrightarrow> n < 1000 \<Longrightarrow>
   show_nat n = [digit_char (n div 100), digit_char (n div 10), digit_char n]"
  by (subst show_nat.simps) (simp add: show_nat_2 div_mult2_eq [symmetric])

lemma show_nat_4:
  "1000 \<le> n \<Longrightarrow> n < 10000 \<Longrightarrow>
   show_nat n = [digit_char (n div 1000), digit_char (n div 100), digit_char (n div 10), digit_char n]"
  by (subst show_nat.simps) (simp add: show_nat_3 div_mult2_eq [symmetric])

lemma pad_2: "n < 100 \<Longrightarrow> pad 2 n = [digit_char (n div 10), digit_char n]"
  by (cases "n < 10") (simp_all add: pad_def show_nat_1 show_nat_2)

lemma pad_4:
  "1000 \<le> n \<Longrightarrow> n < 10000 \<Longrightarrow>
   pad 4 n = [digit_char (n div 1000), digit_char (n div 100), digit_char (n div 10), digit_char n]"
  by (simp add: pad_def show_nat_4)

lemma mod_400_imp_mod_100: "(y::nat) mod 400 = 0 \<Longrightarrow> y mod 100 = 0"
proof -
  assume "y mod 400 = 0"
  then have "400 dvd y" by (simp add: mod_eq_0_iff_dvd)
  moreover have "(100::nat) dvd 400" by simp
  ultimately have "100 dvd y" by (rule dvd_trans [rotated])
  then show ?thesis by (simp add: mod_eq_0_iff_dvd)
qed

lemma mod_100_imp_mod_4: "(y::nat) mod 100 = 0 \<Longrightarrow> y mod 4 = 0"
proof -
  assume "y mod 100 = 0"
  then have "100 dvd y" by (simp add: mod_eq_0_iff_dvd)
  moreover have "(4::nat) dvd 100" by simp
  ultimately have "4 dvd y" by (rule dvd_trans [rotated])
  then show ?thesis by (simp add: mod_eq_0_iff_dvd)
qed

lemma year_step:
  assumes "1 \<le> y"
  shows "days_upto (y + 1) + centuries_upto y
         = days_upto y + centuries_upto (y + 1) + days_in_year y"
proof -
  obtain k where k: "y = Suc k" using assms by (cases y) auto
  have a: "y div 4 = (y - 1) div 4 + (if y mod 4 = 0 then 1 else 0)"
    unfolding k by (simp add: div_Suc)
  have b: "y div 100 = (y - 1) div 100 + (if y mod 100 = 0 then 1 else 0)"
    unfolding k by (simp add: div_Suc)
  have c: "y div 400 = (y - 1) div 400 + (if y mod 400 = 0 then 1 else 0)"
    unfolding k by (simp add: div_Suc)
  show ?thesis
    unfolding days_upto_def centuries_upto_def days_in_year_def leap_def
    using a b c mod_400_imp_mod_100 [of y] mod_100_imp_mod_4 [of y] by auto
qed

lemma year_from_sum:
  "year_from y d = (y', r) \<Longrightarrow> 1 \<le> y \<Longrightarrow>
     y \<le> y' \<and> r < days_in_year y' \<and>
     days_upto y' + centuries_upto y + r = days_upto y + centuries_upto y' + d"
proof (induction y d rule: year_from.induct)
  case (1 y d)
  show ?case
  proof (cases "d < days_in_year y")
    case True
    with "1.prems" show ?thesis by (simp add: year_from.simps [of y d])
  next
    case False
    with "1.prems" have yf: "year_from (y + 1) (d - days_in_year y) = (y', r)"
      by (simp add: year_from.simps [of y d])
    from "1.IH" [OF False yf] have ih: "y + 1 \<le> y'" "r < days_in_year y'"
      "days_upto y' + centuries_upto (y + 1) + r
       = days_upto (y + 1) + centuries_upto y' + (d - days_in_year y)"
      by simp_all
    from False have d: "days_in_year y \<le> d" by simp
    from year_step [OF "1.prems"(2)] ih(3) d
    have "days_upto y' + centuries_upto y + r = days_upto y + centuries_upto y' + d"
      by linarith
    with ih show ?thesis by simp
  qed
qed

lemma year_from_1970:
  assumes "year_from 1970 d = (y, r)" and "d < 2932897"
  shows "1970 \<le> y \<and> y \<le> 9999 \<and> r < days_in_year y"
proof -
  have e: "days_upto 1970 = 719546" "centuries_upto 1970 = 19"
    by (simp_all add: days_upto_def centuries_upto_def)
  from year_from_sum [OF assms(1)]
  have a: "1970 \<le> y" and b: "r < days_in_year y"
    and c: "days_upto y + 19 + r = 719546 + centuries_upto y + d"
    by (simp_all add: e)
  have "y \<le> 9999"
  proof (rule ccontr)
    assume "\<not> y \<le> 9999"
    define k where "k = y - 10000"
    with \<open>\<not> y \<le> 9999\<close> have k: "y = 10000 + k" by simp
    have 1: "(y - 1) div 4 \<ge> 2499" unfolding k by simp
    have 2: "(y - 1) div 400 \<ge> 24" unfolding k by simp
    have 3: "centuries_upto y \<le> 99 + k" unfolding k centuries_upto_def by simp
    have 4: "days_upto y \<ge> 3650000 + 365 * k + 2499 + 24"
      unfolding days_upto_def using 1 2 k by simp
    from c 3 4 assms(2) show False by linarith
  qed
  with a b show ?thesis by simp
qed

lemma month_from_bounds:
  "month_from m d ls = (m', d') \<Longrightarrow> d < sum_list ls \<Longrightarrow> list_all (\<lambda>l. l \<le> 31) ls \<Longrightarrow>
     m \<le> m' \<and> m' < m + length ls \<and> d' < 31"
proof (induction ls arbitrary: m d)
  case Nil
  then show ?case by simp
next
  case (Cons l ls)
  show ?case
  proof (cases "d < l")
    case True
    with Cons.prems show ?thesis by auto
  next
    case False
    with Cons.prems have "month_from (m + 1) (d - l) ls = (m', d')" "d - l < sum_list ls"
      "list_all (\<lambda>l. l \<le> 31) ls"
      by auto
    from Cons.IH [OF this] show ?thesis by simp
  qed
qed

lemma sum_month_lengths: "sum_list (month_lengths y) = days_in_year y"
  by (simp add: month_lengths_def days_in_year_def)

lemma civil_bounds:
  assumes "civil_from_days days = (y, m, d)" and "days < 2932897"
  shows "1970 \<le> y \<and> y \<le> 9999 \<and> 1 \<le> m \<and> m \<le> 12 \<and> 1 \<le> d \<and> d \<le> 31"
proof -
  obtain y0 r where yf: "year_from 1970 days = (y0, r)" by (cases "year_from 1970 days")
  obtain m0 d0 where mf: "month_from 1 r (month_lengths y0) = (m0, d0)"
    by (cases "month_from 1 r (month_lengths y0)")
  from assms(1) yf mf have eq: "y = y0" "m = m0" "d = d0 + 1"
    by (simp_all add: civil_from_days_def)
  from year_from_1970 [OF yf assms(2)] have yb: "1970 \<le> y0" "y0 \<le> 9999" "r < days_in_year y0"
    by simp_all
  have "list_all (\<lambda>l. l \<le> 31) (month_lengths y0)" by (simp add: month_lengths_def)
  from month_from_bounds [OF mf _ this] yb(3)
  have "1 \<le> m0 \<and> m0 < 1 + length (month_lengths y0) \<and> d0 < 31"
    by (simp add: sum_month_lengths)
  then show ?thesis using yb eq by (simp add: month_lengths_def)
qed

lemma timestamp_explicit:
  assumes "t < 253402300800000" and "civil_from_days (t div 86400000) = (y, m, d)"
  shows "timestamp t =
     [digit_char (y div 1000), digit_char (y div 100), digit_char (y div 10), digit_char y,
      CHR ''-'', digit_char (m div 10), digit_char m,
      CHR ''-'', digit_char (d div 10), digit_char d,
      CHR '' '', digit_char (t div 3600000 mod 24 div 10), digit_char (t div 3600000 mod 24),
      CHR '':'', digit_char (t div 60000 mod 60 div 10), digit_char (t div 60000 mod 60),
      CHR '':'', digit_char (t div 1000 mod 60 div 10), digit_char (t div 1000 mod 60)]"
proof -
  define hh where "hh = t div 3600000 mod 24"
  define mi where "mi = t div 60000 mod 60"
  define ss where "ss = t div 1000 mod 60"
  define ms where "ms = pad 3 (t mod 1000)"
  from assms(1) have "t div 86400000 < 2932897" by simp
  from civil_bounds [OF assms(2) this]
  have b: "1000 \<le> y" "y < 10000" "m < 100" "d < 100" by simp_all
  have h: "hh < 100" "mi < 100" "ss < 100"
    unfolding hh_def mi_def ss_def by (simp_all add: less_trans [OF mod_less_divisor])
  from b(2) have y: "y \<le> 9999" by simp
  have iso: "toISOString t = pad 4 y @ ''-'' @ pad 2 m @ ''-'' @ pad 2 d
        @ ''T'' @ pad 2 hh @ '':'' @ pad 2 mi @ '':'' @ pad 2 ss @ ''.'' @ ms @ ''Z''"
    unfolding toISOString_def assms(2) hh_def mi_def ss_def ms_def using y by simp
  have "timestamp t =
     [digit_char (y div 1000), digit_char (y div 100), digit_char (y div 10), digit_char y,
      CHR ''-'', digit_char (m div 10), digit_char m,
      CHR ''-'', digit_char (d div 10), digit_char d,
      CHR '' '', digit_char (hh div 10), digit_char hh,
      CHR '':'', digit_char (mi div 10), digit_char mi,
      CHR '':'', digit_char (ss div 10), digit_char ss]"
    unfolding timestamp_def iso pad_4 [OF b(1,2)] pad_2 [OF b(3)] pad_2 [OF b(4)]
        pad_2 [OF h(1)] pad_2 [OF h(2)] pad_2 [OF h(3)] before_dot_def
    by simp
  then show ?thesis unfolding hh_def mi_def ss_def .
qed

lemma timestamp_form:
  assumes "t < 253402300800000"
  shows "has_form ''YYYY-MM-DD HH:MM:SS'' (timestamp t)"
proof -
  obtain y m d where c: "civil_from_days (t div 86400000) = (y, m, d)"
    by (cases "civil_from_days (t div 86400000)")
  show ?thesis
    unfolding timestamp_explicit [OF assms c] by simp
qed

subsection \<open>What the operations do to each field\<close>

lemma console_write_fields [simp]:
  "processes (console_write c x s) = processes s"
  "startTimes (console_write c x s) = startTimes s"
  "logStream (console_write c x s) = logStream s"
  "children (console_write c x s) = children s"
  "timers (console_write c x s) = timers s"
  "files (console_write c x s) = files s"
  "os_pid (console_write c x s) = os_pid s"
  "console (console_write c x s) = console s @ [(c, x)]"
  by (simp_all add: console_write_def)

lemma console_log_fields [simp]:
  "processes (console_log x s) = processes s"
  "startTimes (console_log x s) = startTimes s"
  "logStream (console_log x s) = logStream s"
  "children (console_log x s) = children s"
  "timers (console_log x s) = timers s"
  "files (console_log x s) = files s"
  "os_pid (console_log x s) = os_pid s"
  "console (console_log x s) = console s @ [(Stdout, x @ [nl])]"
  by (simp_all add: console_log_def)

lemma content_console [simp]:
  "content (console_write c x s) = content s" "content (console_log x s) = content s"
  by (simp_all add: content_def fun_eq_iff)

lemma logToFile_fields [simp]:
  "processes (logToFile t i m s) = processes s"
  "startTimes (logToFile t i m s) = startTimes s"
  "logStream (logToFile t i m s) = logStream s"
  "children (logToFile t i m s) = children s"
  "timers (logToFile t i m s) = timers s"
  "console (logToFile t i m s) = console s"
  "os_pid (logToFile t i m s) = os_pid s"
  "files (logToFile t i m s) = (files s)(logFile i \<mapsto> content s (logFile i) @ stamped t m)"
  by (simp_all add: logToFile_def stamped_def)

lemma kill_fields [simp]:
  "processes (kill h s) = processes s"
  "startTimes (kill h s) = startTimes s"
  "logStream (kill h s) = logStream s"
  "timers (kill h s) = timers s"
  "console (kill h s) = console s"
  "files (kill h s) = files s"
  "os_pid (kill h s) = os_pid s"
  "length (children (kill h s)) = length (children s)"
  by (simp_all add: kill_def)

lemma content_kill [simp]: "content (kill h s) = content s"
  by (simp add: content_def fun_eq_iff)

lemma map_of_None_delete: "map_of al k = None \<Longrightarrow> AList.delete k al = al"
  by (simp add: map_of_eq_None_iff)

lemma processes_startBot:
  "processes (startBot t i s) =
     (if map_of (processes s) i \<noteq> None then processes s
      else AList.update i \<lparr>hid = length (children s), pid = os_pid s (length (children s))\<rparr>
             (processes s))"
  by (simp add: startBot_def Let_def)

lemma startTimes_startBot:
  "startTimes (startBot t i s) =
     (if map_of (processes s) i \<noteq> None then startTimes s
      else AList.update i t (startTimes s))"
  by (simp add: startBot_def Let_def)

lemma processes_stopBot: "processes (stopBot t i s) = AList.delete i (processes s)"
  by (simp add: stopBot_def Let_def map_of_None_delete split: option.split)

lemma startTimes_stopBot:
  "startTimes (stopBot t i s) =
     (if map_of (processes s) i \<noteq> None then AList.delete i (startTimes s) else startTimes s)"
  by (simp add: stopBot_def Let_def split: option.split)

lemma processes_restartBot:
  "processes (restartBot t i s) = processes (startBot t i s)"
  by (auto simp add: restartBot_def processes_startBot split: option.split)

lemma startTimes_restartBot:
  "startTimes (restartBot t i s) = startTimes (startBot t i s)"
  by (auto simp add: restartBot_def startTimes_startBot split: option.split)

lemma processes_on_exit: "processes (on_exit t i c s) = AList.delete i (processes s)"
  by (simp add: on_exit_def Let_def)

lemma startTimes_on_exit: "startTimes (on_exit t i c s) = AList.delete i (startTimes s)"
  by (simp add: on_exit_def Let_def)

lemma registry_on_data [simp]:
  "processes (on_stdout t i d s) = processes s" "startTimes (on_stdout t i d s) = startTimes s"
  "processes (on_stderr t i d s) = processes s" "startTimes (on_stderr t i d s) = startTimes s"
  by (simp_all add: on_stdout_def on_stderr_def Let_def)

lemma registry_ok_update:
  assumes "distinct (map fst al)" and "map fst al = map fst bl"
  shows "distinct (map fst (AList.update k v al)) \<and>
         map fst (AList.update k v al) = map fst (AList.update k w bl)"
proof
  show "distinct (map fst (AList.update k v al))"
    using assms(1) by (rule distinct_update)
  have "set (map fst al) = set (map fst bl)" by (simp only: assms(2))
  then have "fst ` set al = fst ` set bl" by simp
  then show "map fst (AList.update k v al) = map fst (AList.update k w bl)"
    by (simp only: update_keys assms(2))
qed

lemma registry_ok_delete:
  assumes "distinct (map fst al)" and "map fst al = map fst bl"
  shows "distinct (map fst (AList.delete k al)) \<and>
         map fst (AList.delete k al) = map fst (AList.delete k bl)"
proof
  show "distinct (map fst (AList.delete k al))"
    using assms(1) by (rule distinct_delete)
  show "map fst (AList.delete k al) = map fst (AList.delete k bl)"
    by (simp only: delete_keys assms(2))
qed

lemma registry_okD1: "registry_ok s \<Longrightarrow> distinct (map fst (processes s))"
  unfolding registry_ok_def by (rule conjunct1)

lemma registry_okD2: "registry_ok s \<Longrightarrow> map fst (processes s) = map fst (startTimes s)"
  unfolding registry_ok_def by (rule conjunct2)

lemmas registry_okD = registry_okD1 registry_okD2

lemma registry_ok_fields [simp]:
  "registry_ok (s\<lparr>logStream := x\<rparr>) = registry_ok s"
  "registry_ok (s\<lparr>timers := y\<rparr>) = registry_ok s"
  "registry_ok (s\<lparr>children := z\<rparr>) = registry_ok s"
  "registry_ok (on_stdout t i d s) = registry_ok s"
  "registry_ok (on_stderr t i d s) = registry_ok s"
  by (simp_all add: registry_ok_def)

lemma registry_ok_startBot:
  assumes "registry_ok s"
  shows "registry_ok (startBot t i s)"
proof (cases "map_of (processes s) i \<noteq> None")
  case True
  then have "startBot t i s = s" by (simp add: startBot_def)
  with assms show ?thesis by simp
next
  case False
  then have p: "processes (startBot t i s) =
      AList.update i \<lparr>hid = length (children s), pid = os_pid s (length (children s))\<rparr>
        (processes s)"
    and q: "startTimes (startBot t i s) = AList.update i t (startTimes s)"
    by (simp_all add: processes_startBot startTimes_startBot)
  show ?thesis
    unfolding registry_ok_def p q by (rule registry_ok_update [OF registry_okD [OF assms]])
qed

lemma registry_ok_stopBot:
  assumes "registry_ok s"
  shows "registry_ok (stopBot t i s)"
proof (cases "map_of (processes s) i")
  case None
  then have p: "processes (stopBot t i s) = processes s"
    and q: "startTimes (stopBot t i s) = startTimes s"
    by (simp_all add: processes_stopBot startTimes_stopBot map_of_None_delete)
  from assms show ?thesis unfolding registry_ok_def p q .
next
  case (Some h)
  then have p: "processes (stopBot t i s) = AList.delete i (processes s)"
    and q: "startTimes (stopBot t i s) = AList.delete i (startTimes s)"
    by (simp_all add: processes_stopBot startTimes_stopBot)
  show ?thesis
    unfolding registry_ok_def p q by (rule registry_ok_delete [OF registry_okD [OF assms]])
qed

lemma registry_ok_restartBot:
  assumes "registry_ok s"
  shows "registry_ok (restartBot t i s)"
  using registry_ok_startBot [OF assms, of t i]
  unfolding registry_ok_def processes_restartBot startTimes_restartBot .

lemma registry_ok_on_exit:
  assumes "registry_ok s"
  shows "registry_ok (on_exit t i c s)"
  unfolding registry_ok_def processes_on_exit startTimes_on_exit
  by (rule registry_ok_delete [OF registry_okD [OF assms]])

lemma registry_ok_console_log [simp]: "registry_ok (console_log x s) = registry_ok s"
  by (simp add: registry_ok_def)

lemma fold_registry_ok:
  assumes "registry_ok s" and "\<And>x s. registry_ok s \<Longrightarrow> registry_ok (f x s)"
  shows "registry_ok (fold f xs s)"
  using assms(1) by (induction xs arbitrary: s) (simp_all add: assms(2))

lemma registry_ok_showStatus: "registry_ok s \<Longrightarrow> showStatus w s = Inr s' \<Longrightarrow> registry_ok s'"
proof -
  assume ok: "registry_ok s" and sh: "showStatus w s = Inr s'"
  from sh obtain ids where
    s': "s' = console_log [] (fold (\<lambda>i s'. console_log (status_row (now w) s' i) s') ids
                                (fold console_log status_header s))"
    by (auto simp add: showStatus_def Let_def split: sum.splits)
  have "registry_ok (fold console_log status_header s)"
    by (rule fold_registry_ok) (simp_all add: ok)
  then have "registry_ok (fold (\<lambda>i s'. console_log (status_row (now w) s' i) s') ids
                                (fold console_log status_header s))"
    by (rule fold_registry_ok) simp_all
  then show ?thesis by (simp add: s')
qed

lemma registry_ok_tick: "registry_ok s \<Longrightarrow> tick w s = Inr s' \<Longrightarrow> registry_ok s'"
proof -
  assume ok: "registry_ok s" and tk: "tick w s = Inr s'"
  from tk obtain current where
    s': "s' = fold (\<lambda>i s'. if i \<notin> set current
                                  then stopBot (now w) i
                                         (console_log (stamped (now w)
                                            (''Project '' @ i @ '' folder deleted, stopping bot...'')) s')
                                  else s')
               (object_keys (processes (fold (\<lambda>i s'. if map_of (processes s') i = None
                                  then startBot (now w) i s' else s') current s)))
               (fold (\<lambda>i s'. if map_of (processes s') i = None
                                  then startBot (now w) i s' else s') current s)"
    by (auto simp add: tick_def Let_def split: sum.splits)
  have "registry_ok (fold (\<lambda>i s'. if map_of (processes s') i = None
                                  then startBot (now w) i s' else s') current s)"
    by (rule fold_registry_ok) (simp_all add: ok registry_ok_startBot)
  then show ?thesis
    unfolding s' by (rule fold_registry_ok) (simp_all add: registry_ok_stopBot)
qed

lemma registry_ok_on_line:
  assumes ok: "registry_ok s" and ln: "on_line w l s = Inr s'"
  shows "registry_ok s'"
proof -
  have ra: "registry_ok (fold (restartBot (now w)) ks s)" for ks
    by (rule fold_registry_ok) (simp_all add: ok registry_ok_restartBot)
  have sa: "registry_ok (fold (stopBot (now w)) ks s)" for ks
    by (rule fold_registry_ok) (simp_all add: ok registry_ok_stopBot)
  have sel: "registry_ok (s\<lparr>logStream := x\<rparr>)" for x
    using ok by simp
  from ln show ?thesis
    unfolding on_line_def
    using ok ra sa sel registry_ok_restartBot [OF ok] registry_ok_stopBot [OF ok]
      registry_ok_showStatus [OF ok]
    by (auto split: if_splits)
qed

lemma registry_ok_step:
  assumes ok: "registry_ok s" and st: "step w e s = Inr s'"
  shows "registry_ok s'"
proof (cases e)
  case (Line l)
  with st have "on_line w l s = Inr s'" by (simp add: step_def)
  then show ?thesis by (rule registry_ok_on_line [OF ok])
next
  case Tick
  with st have "tick w s = Inr s'" by (simp add: step_def)
  then show ?thesis by (rule registry_ok_tick [OF ok])
next
  case Timeout
  show ?thesis
  proof (cases "timers s")
    case Nil
    with st Timeout ok show ?thesis by (simp add: step_def)
  next
    case (Cons a rest)
    obtain due i where a: "a = (due, i)" by (cases a)
    have "registry_ok (startBot (now w) i (s\<lparr>timers := rest\<rparr>))"
      using ok by (intro registry_ok_startBot) simp
    with st Timeout Cons a ok show ?thesis
      by (auto simp add: step_def split: if_splits)
  qed
next
  case (Data h c d)
  with st ok show ?thesis
    by (cases c) (auto simp add: step_def split: if_splits)
next
  case (Exit h code)
  have "registry_ok (on_exit (now w) i code (s\<lparr>children := r\<rparr>))" for r i
    using ok by (intro registry_ok_on_exit) simp
  with st Exit ok show ?thesis
    by (auto simp add: step_def split: if_splits)
next
  case (ChildError h)
  with st ok show ?thesis by (auto simp add: step_def split: if_splits)
qed

lemma registry_ok_run: "registry_ok s \<Longrightarrow> run s es = Inr s' \<Longrightarrow> registry_ok s'"
proof (induction es arbitrary: s)
  case Nil
  then show ?case by simp
next
  case (Cons a es)
  obtain w e where a: "a = (w, e)" by (cases a)
  from Cons.prems(2) obtain s1 where s1: "step w e s = Inr s1" "run s1 es = Inr s'"
    by (auto simp add: a split: sum.splits)
  from registry_ok_step [OF Cons.prems(1) s1(1)] have "registry_ok s1" .
  from Cons.IH [OF this s1(2)] show ?case .
qed

lemma registry_ok_supervisor: "supervisor os w0 es = Inr s' \<Longrightarrow> registry_ok s'"
proof -
  assume sv: "supervisor os w0 es = Inr s'"
  then obtain ids where r: "run (fold (startBot (now w0)) ids (init os)) es = Inr s'"
    by (auto simp add: supervisor_def startup_def split: sum.splits)
  have "registry_ok (init os)" by (simp add: registry_ok_def init_def)
  then have "registry_ok (fold (startBot (now w0)) ids (init os))"
    by (rule fold_registry_ok) (simp add: registry_ok_startBot)
  from registry_ok_run [OF this r] show ?thesis .
qed

subsection \<open>Log files only grow, by stamped entries\<close>

lemma appended_same: "content s' = content s \<Longrightarrow> appended t s s'"
proof -
  assume c: "content s' = content s"
  have "content s' f = content s f @ concat (map (stamped t) [])" for f by (simp add: c)
  then show ?thesis unfolding appended_def by blast
qed

lemma appended_trans:
  assumes "appended t s s1" and "appended t s1 s2"
  shows "appended t s s2"
  unfolding appended_def
proof
  fix f
  from assms(1) obtain ms where 1: "content s1 f = content s f @ concat (map (stamped t) ms)"
    unfolding appended_def by blast
  from assms(2) obtain ns where 2: "content s2 f = content s1 f @ concat (map (stamped t) ns)"
    unfolding appended_def by blast
  have "content s2 f = content s f @ concat (map (stamped t) (ms @ ns))"
    by (simp add: 1 2)
  then show "\<exists>ms. content s2 f = content s f @ concat (map (stamped t) ms)" ..
qed

lemma content_logToFile:
  "content (logToFile t i m s) f =
     (if f = logFile i then content s f @ stamped t m else content s f)"
  by (simp add: content_def)

lemma appended_logToFile: "appended t s (logToFile t i m s)"
  unfolding appended_def
proof
  fix f
  have "content (logToFile t i m s) f =
          content s f @ concat (map (stamped t) (if f = logFile i then [m] else []))"
    by (simp add: content_logToFile)
  then show "\<exists>ms. content (logToFile t i m s) f = content s f @ concat (map (stamped t) ms)" ..
qed

lemma appended_then_log:
  assumes "content s1 = content s"
  shows "appended t s (logToFile t i m s1)"
proof -
  from assms have "appended t s s1" by (rule appended_same)
  then show ?thesis using appended_logToFile by (rule appended_trans)
qed

lemma content_fields [simp]:
  "content (s\<lparr>processes := p\<rparr>) = content s"
  "content (s\<lparr>startTimes := q\<rparr>) = content s"
  "content (s\<lparr>logStream := x\<rparr>) = content s"
  "content (s\<lparr>children := c\<rparr>) = content s"
  "content (s\<lparr>timers := y\<rparr>) = content s"
  by (simp_all add: content_def fun_eq_iff)

lemma appended_startBot: "appended t s (startBot t i s)"
proof (cases "map_of (processes s) i \<noteq> None")
  case True
  then show ?thesis by (simp add: startBot_def appended_same)
next
  case False
  then show ?thesis
    unfolding startBot_def Let_def by (simp add: appended_then_log)
qed

lemma appended_stopBot: "appended t s (stopBot t i s)"
proof (cases "map_of (processes s) i")
  case None
  then show ?thesis by (simp add: stopBot_def appended_same)
next
  case (Some h)
  then show ?thesis
    unfolding stopBot_def Let_def by (simp add: appended_then_log)
qed

lemma appended_restartBot: "appended t s (restartBot t i s)"
proof (cases "map_of (processes s) i")
  case None
  have "appended t s (console_log (stamped t (''Bot '' @ i @ '' not running, starting...'')) s)"
    by (rule appended_same) simp
  then show ?thesis using None appended_startBot
    by (auto simp add: restartBot_def intro: appended_trans)
next
  case (Some h)
  then show ?thesis by (auto simp add: restartBot_def intro!: appended_same)
qed

lemma appended_on_data: "appended t s (on_stdout t i d s)" "appended t s (on_stderr t i d s)"
  unfolding on_stdout_def on_stderr_def Let_def
  by (simp_all add: appended_then_log)

lemma appended_on_exit: "appended t s (on_exit t i c s)"
proof -
  have "content (on_exit t i c s) = content (logToFile t i (exit_msg i c) s)"
    by (simp add: on_exit_def Let_def content_def fun_eq_iff)
  then have "appended t (logToFile t i (exit_msg i c) s) (on_exit t i c s)"
    by (rule appended_same)
  with appended_logToFile show ?thesis by (rule appended_trans)
qed

lemma fold_appended:
  assumes "\<And>x s. appended t s (f x s)"
  shows "appended t s (fold f xs s)"
proof (induction xs arbitrary: s)
  case Nil
  show ?case by (simp add: appended_same)
next
  case (Cons x xs)
  have "appended t s (f x s)" by (rule assms)
  moreover have "appended t (f x s) (fold f xs (f x s))" by (rule Cons.IH)
  ultimately show ?case by (simp add: appended_trans)
qed

lemma appended_console_log: "appended t s (console_log x s)"
  by (rule appended_same) simp

lemma appended_showStatus: "showStatus w s = Inr s' \<Longrightarrow> appended (now w) s s'"
proof -
  assume "showStatus w s = Inr s'"
  then obtain ids where
    s': "s' = console_log [] (fold (\<lambda>i s'. console_log (status_row (now w) s' i) s') ids
                                (fold console_log status_header s))"
    by (auto simp add: showStatus_def Let_def split: sum.splits)
  have 1: "appended (now w) s (fold console_log status_header s)"
    by (rule fold_appended) (rule appended_console_log)
  have 2: "appended (now w) (fold console_log status_header s)
            (fold (\<lambda>i s'. console_log (status_row (now w) s' i) s') ids
                                (fold console_log status_header s))"
    by (rule fold_appended) (rule appended_console_log)
  have 3: "appended (now w) s (fold (\<lambda>i s'. console_log (status_row (now w) s' i) s') ids
                                (fold console_log status_header s))"
    using 1 2 by (rule appended_trans)
  show ?thesis unfolding s' using 3 appended_console_log by (rule appended_trans)
qed

lemma appended_tick: "tick w s = Inr s' \<Longrightarrow> appended (now w) s s'"
proof -
  assume "tick w s = Inr s'"
  then obtain current where
    s': "s' = fold (\<lambda>i s'. if i \<notin> set current
                                  then stopBot (now w) i
                                         (console_log (stamped (now w)
                                            (''Project '' @ i @ '' folder deleted, stopping bot...'')) s')
                                  else s')
               (object_keys (processes (fold (\<lambda>i s'. if map_of (processes s') i = None
                                  then startBot (now w) i s' else s') current s)))
               (fold (\<lambda>i s'. if map_of (processes s') i = None
                                  then startBot (now w) i s' else s') current s)"
    by (auto simp add: tick_def Let_def split: sum.splits)
  have 1: "appended (now w) s (fold (\<lambda>i s'. if map_of (processes s') i = None
                                  then startBot (now w) i s' else s') current s)"
    by (rule fold_appended) (simp add: appended_startBot appended_same)
  have stop: "appended (now w) s0 (stopBot (now w) i (console_log x s0))" for s0 i x
    using appended_console_log appended_stopBot by (rule appended_trans)
  show ?thesis
    unfolding s' using 1
    by (rule appended_trans) (rule fold_appended, simp add: stop appended_same)
qed

lemma appended_on_line:
  assumes "on_line w l s = Inr s'"
  shows "appended (now w) s s'"
proof -
  have ra: "appended (now w) s (fold (restartBot (now w)) ks s)" for ks
    by (rule fold_appended) (rule appended_restartBot)
  have sa: "appended (now w) s (fold (stopBot (now w)) ks s)" for ks
    by (rule fold_appended) (rule appended_stopBot)
  have sel: "appended (now w) s (s\<lparr>logStream := x\<rparr>)" for x
    by (rule appended_same) simp
  have same: "appended (now w) s s" by (rule appended_same) simp
  from assms show ?thesis
    unfolding on_line_def
    using ra sa sel same appended_restartBot appended_stopBot appended_showStatus
    by (auto split: if_splits)
qed

lemma appended_step:
  assumes st: "step w e s = Inr s'"
  shows "appended (now w) s s'"
proof (cases e)
  case (Line l)
  with st have "on_line w l s = Inr s'" by (simp add: step_def)
  then show ?thesis by (rule appended_on_line)
next
  case Tick
  with st have "tick w s = Inr s'" by (simp add: step_def)
  then show ?thesis by (rule appended_tick)
next
  case Timeout
  have same: "appended (now w) s s" by (rule appended_same) simp
  show ?thesis
  proof (cases "timers s")
    case Nil
    with st Timeout same show ?thesis by (simp add: step_def)
  next
    case (Cons a rest)
    obtain due i where a: "a = (due, i)" by (cases a)
    have "appended (now w) s (s\<lparr>timers := rest\<rparr>)" by (rule appended_same) simp
    then have "appended (now w) s (startBot (now w) i (s\<lparr>timers := rest\<rparr>))"
      using appended_startBot by (rule appended_trans)
    with st Timeout Cons a same show ?thesis
      by (auto simp add: step_def split: if_splits)
  qed
next
  case (Data h c d)
  have same: "appended (now w) s s" by (rule appended_same) simp
  with st Data show ?thesis
    by (cases c) (auto simp add: step_def appended_on_data split: if_splits)
next
  case (Exit h code)
  have same: "appended (now w) s s" by (rule appended_same) simp
  have "appended (now w) s (on_exit (now w) i code (s\<lparr>children := r\<rparr>))" for r i
  proof -
    have "appended (now w) s (s\<lparr>children := r\<rparr>)" by (rule appended_same) simp
    then show ?thesis using appended_on_exit by (rule appended_trans)
  qed
  with st Exit same show ?thesis
    by (auto simp add: step_def split: if_splits)
next
  case (ChildError h)
  have same: "appended (now w) s s" by (rule appended_same) simp
  with st ChildError show ?thesis by (auto simp add: step_def split: if_splits)
qed

text \<open>
  C8. While the clock is before the year 10000, the time stamp has the form
  \<open>YYYY-MM-DD HH:MM:SS\<close>. \<open>logToFile\<close> appends \<open>[time stamp] message\<close> to the file
  \<open>logs/<id>.txt\<close> and touches no other file; a chunk of the normal stream is logged as
  \<open>[time stamp] [id] data\<close>, one of the error stream as \<open>[time stamp] [id ERROR] data\<close>.
  Whatever event is handled, every log file afterwards is the file before followed by
  entries that start with the bracketed time stamp.
\<close>

theorem log_line_format:
  assumes "t < 253402300800000"
  shows "has_form ''YYYY-MM-DD HH:MM:SS'' (timestamp t)
    \<and> files (logToFile t i message s) =
        (files s)(''logs/'' @ i @ ''.txt'' \<mapsto>
           content s (''logs/'' @ i @ ''.txt'') @ ''['' @ timestamp t @ ''] '' @ message)
    \<and> files (on_stdout t i data s) =
        (files s)(''logs/'' @ i @ ''.txt'' \<mapsto>
           content s (''logs/'' @ i @ ''.txt'') @ ''['' @ timestamp t @ ''] ['' @ i @ ''] '' @ data)
    \<and> files (on_stderr t i data s) =
        (files s)(''logs/'' @ i @ ''.txt'' \<mapsto>
           content s (''logs/'' @ i @ ''.txt'') @ ''['' @ timestamp t @ ''] ['' @ i @ '' ERROR] '' @ data)
    \<and> (\<forall>d e s'. step \<lparr>now = t, dir = d\<rparr> e s = Inr s' \<longrightarrow>
          (\<forall>f. \<exists>ms. content s' f =
             content s f @ concat (map (\<lambda>m. ''['' @ timestamp t @ ''] '' @ m) ms)))"
proof (intro conjI allI impI)
  show "has_form ''YYYY-MM-DD HH:MM:SS'' (timestamp t)"
    using assms by (rule timestamp_form)
next
  show "files (logToFile t i message s) =
        (files s)(''logs/'' @ i @ ''.txt'' \<mapsto>
           content s (''logs/'' @ i @ ''.txt'') @ ''['' @ timestamp t @ ''] '' @ message)"
    by (simp add: logFile_def stamped_def)
next
  show "files (on_stdout t i data s) =
        (files s)(''logs/'' @ i @ ''.txt'' \<mapsto>
           content s (''logs/'' @ i @ ''.txt'') @ ''['' @ timestamp t @ ''] ['' @ i @ ''] '' @ data)"
    by (simp add: on_stdout_def Let_def logFile_def stamped_def)
next
  show "files (on_stderr t i data s) =
        (files s)(''logs/'' @ i @ ''.txt'' \<mapsto>
           content s (''logs/'' @ i @ ''.txt'') @ ''['' @ timestamp t @ ''] ['' @ i @ '' ERROR] '' @ data)"
    by (simp add: on_stderr_def Let_def logFile_def stamped_def)
next
  fix d e s' f
  assume "step \<lparr>now = t, dir = d\<rparr> e s = Inr s'"
  then have "appended (now \<lparr>now = t, dir = d\<rparr>) s s'" by (rule appended_step)
  then have "\<exists>ms. content s' f = content s f @ concat (map (stamped t) ms)"
    by (simp add: appended_def)
  moreover have "stamped t = (\<lambda>m. ''['' @ timestamp t @ ''] '' @ m)"
    by (simp add: fun_eq_iff stamped_def)
  ultimately show "\<exists>ms. content s' f =
             content s f @ concat (map (\<lambda>m. ''['' @ timestamp t @ ''] '' @ m) ms)"
    by simp
qed

theorem log_line_format_witness:
  "(1700000000000::nat) < 253402300800000
   \<and> timestamp 1700000000000 = ''2023-11-14 22:13:20''
   \<and> has_form ''YYYY-MM-DD HH:MM:SS'' ''2023-11-14 22:13:20''
   \<and> files (on_stderr 1700000000000 ''7'' ''bad'' (init Map.empty)) ''logs/7.txt''
       = Some ''[2023-11-14 22:13:20] [7 ERROR] bad''"
proof -
  have h: "(1700000000000::nat) < 253402300800000" by simp
  have ts: "timestamp 1700000000000 = ''2023-11-14 22:13:20''" by code_simp
  note t = log_line_format [OF h, where i = "''7''" and data = "''bad''" and s = "init Map.empty"]
  from t have f: "has_form ''YYYY-MM-DD HH:MM:SS'' (timestamp 1700000000000)"
    by (rule conjunct1)
  from t have "files (on_stderr 1700000000000 ''7'' ''bad'' (init Map.empty)) =
        (files (init Map.empty))(''logs/'' @ ''7'' @ ''.txt'' \<mapsto>
           content (init Map.empty) (''logs/'' @ ''7'' @ ''.txt'')
           @ ''['' @ timestamp 1700000000000 @ ''] ['' @ ''7'' @ '' ERROR] '' @ ''bad'')"
    by blast
  then have e: "files (on_stderr 1700000000000 ''7'' ''bad'' (init Map.empty)) ''logs/7.txt''
       = Some ''[2023-11-14 22:13:20] [7 ERROR] bad''"
    by (simp add: ts content_def init_def)
  from h ts f e show ?thesis by (simp only: simp_thms)
qed

subsection \<open>Selector-scoped echo\<close>

text \<open>
  C6. A chunk that arrives on the output or the error stream of a child started for
  \<open>i\<close> is always appended to the log file of \<open>i\<close>; it is written to the console, on
  the matching stream, exactly when \<open>logStream\<close> holds \<open>i\<close>, and the console is left
  as it was otherwise. The event loop hands the chunk of any spawned child to these
  listeners.
\<close>

theorem selector_scoped_echo:
  "files (on_stdout t i data s) =
      (files s)(logFile i \<mapsto> content s (logFile i) @ stamped t (''['' @ i @ ''] '' @ data))
   \<and> console (on_stdout t i data s) =
      (if logStream s = Some i
       then console s @ [(Stdout, stamped t (''['' @ i @ ''] '' @ data))] else console s)
   \<and> files (on_stderr t i data s) =
      (files s)(logFile i \<mapsto> content s (logFile i) @ stamped t (''['' @ i @ '' ERROR] '' @ data))
   \<and> console (on_stderr t i data s) =
      (if logStream s = Some i
       then console s @ [(Stderr, stamped t (''['' @ i @ '' ERROR] '' @ data))] else console s)
   \<and> (h < length (children s) \<longrightarrow>
        step w (Data h Stdout data) s = Inr (on_stdout (now w) (wid (children s ! h)) data s)
      \<and> step w (Data h Stderr data) s = Inr (on_stderr (now w) (wid (children s ! h)) data s))"
  by (simp add: on_stdout_def on_stderr_def Let_def step_def)

theorem selector_scoped_echo_witness:
  "0 < length (children ((startBot 1000 ''2'' (init Map.empty))\<lparr>logStream := Some ''2''\<rparr>))
   \<and> step \<lparr>now = 2000, dir = None\<rparr> (Data 0 Stdout ''out'')
         ((startBot 1000 ''2'' (init Map.empty))\<lparr>logStream := Some ''2''\<rparr>)
       = Inr (on_stdout 2000 ''2'' ''out''
               ((startBot 1000 ''2'' (init Map.empty))\<lparr>logStream := Some ''2''\<rparr>))
   \<and> console (on_stdout 2000 ''2'' ''out''
               ((startBot 1000 ''2'' (init Map.empty))\<lparr>logStream := Some ''2''\<rparr>))
       = [(Stdout, ''[1970-01-01 00:00:01] Started 2/index.js (PID: undefined)'' @ [nl]),
          (Stdout, ''[1970-01-01 00:00:02] [2] out'')]
   \<and> console (on_stdout 2000 ''2'' ''out'' (startBot 1000 ''2'' (init Map.empty)))
       = [(Stdout, ''[1970-01-01 00:00:01] Started 2/index.js (PID: undefined)'' @ [nl])]"
proof -
  let ?s = "(startBot 1000 ''2'' (init Map.empty))\<lparr>logStream := Some ''2''\<rparr>"
  have h: "0 < length (children ?s)" by code_simp
  have w: "wid (children ?s ! 0) = ''2''" by code_simp
  from selector_scoped_echo [where s = ?s and h = 0 and w = "\<lparr>now = 2000, dir = None\<rparr>"
      and data = "''out''"] h
  have "step \<lparr>now = 2000, dir = None\<rparr> (Data 0 Stdout ''out'') ?s
          = Inr (on_stdout (now \<lparr>now = 2000, dir = None\<rparr>) (wid (children ?s ! 0)) ''out'' ?s)"
    by blast
  then have st: "step \<lparr>now = 2000, dir = None\<rparr> (Data 0 Stdout ''out'') ?s
          = Inr (on_stdout 2000 ''2'' ''out'' ?s)"
    by (simp only: w world.simps)
  have c1: "console (on_stdout 2000 ''2'' ''out'' ?s)
       = [(Stdout, ''[1970-01-01 00:00:01] Started 2/index.js (PID: undefined)'' @ [nl]),
          (Stdout, ''[1970-01-01 00:00:02] [2] out'')]"
    by code_simp
  have c2: "console (on_stdout 2000 ''2'' ''out'' (startBot 1000 ''2'' (init Map.empty)))
       = [(Stdout, ''[1970-01-01 00:00:01] Started 2/index.js (PID: undefined)'' @ [nl])]"
    by code_simp
  from h st c1 c2 show ?thesis by (intro conjI)
qed

subsection \<open>Exit of a child\<close>

lemma trim_line:
  assumes "s \<noteq> []" and "\<not> is_space (hd s)" and "\<not> is_space (last s)"
  shows "trim (s @ [nl]) = s"
proof -
  obtain c cs where s: "s = c # cs" using assms(1) by (cases s) auto
  with assms(2) have 1: "dropWhile is_space (s @ [nl]) = s @ [nl]" by simp
  have 2: "is_space nl" by (simp add: is_space_def nl_def)
  have "rev s = rev (butlast s @ [last s])" using assms(1) by simp
  also have "\<dots> = last s # rev (butlast s)" by simp
  finally have r: "rev s = last s # rev (butlast s)" .
  have "dropWhile is_space (last s # rev (butlast s)) = last s # rev (butlast s)"
    using assms(3) by simp
  then have 3: "dropWhile is_space (rev s) = rev s" by (simp only: r)
  show ?thesis by (simp add: trim_def 1 2 3)
qed

lemma digit_not_space: "is_digit c \<Longrightarrow> \<not> is_space c"
  by (auto simp add: is_digit_def is_space_def)

lemma trim_exit_msg:
  assumes "is_numeric i"
  shows "trim (exit_msg i code) =
           i @ ''/index.js exited with code '' @ show_code code @ ''. Restarting in 5s...''"
proof -
  obtain c cs where i: "i = c # cs" and c: "is_digit c"
    using assms by (cases i) (auto simp add: is_numeric_def)
  have "trim ((i @ ''/index.js exited with code '' @ show_code code @ ''. Restarting in 5s...'') @ [nl])
          = i @ ''/index.js exited with code '' @ show_code code @ ''. Restarting in 5s...''"
    using digit_not_space [OF c] by (intro trim_line) (simp_all add: i is_space_def)
  then show ?thesis by (simp add: exit_msg_def)
qed

text \<open>
  C4. When the exit event of a spawned child arrives, whatever the exit code, the handler
  prints and logs the line with the code, removes the entry of the child's \<open>id\<close> from
  \<open>processes\<close> and from \<open>startTimes\<close>, and adds exactly one timer, due 5000 ms
  later, that calls \<open>startBot\<close> for that \<open>id\<close> when it runs and does nothing before
  it is due.
\<close>

theorem exit_schedules_restart:
  assumes "h < length (children s)" and "\<not> exited (children s ! h)"
    and "wid (children s ! h) = i"
  shows "\<exists>s'. step w (Exit h code) s = Inr s'
     \<and> map_of (processes s') i = None
     \<and> map_of (startTimes s') i = None
     \<and> timers s' = timers s @ [(now w + 5000, i)]
     \<and> console s' = console s @
          [(Stdout, ''['' @ timestamp (now w) @ ''] '' @
              trim (i @ ''/index.js exited with code '' @ show_code code
                    @ ''. Restarting in 5s...'' @ [nl]) @ [nl])]
     \<and> (is_numeric i \<longrightarrow>
          trim (i @ ''/index.js exited with code '' @ show_code code
                @ ''. Restarting in 5s...'' @ [nl])
          = i @ ''/index.js exited with code '' @ show_code code @ ''. Restarting in 5s...'')
     \<and> files s' = (files s)(logFile i \<mapsto> content s (logFile i) @
           ''['' @ timestamp (now w) @ ''] '' @ i @ ''/index.js exited with code ''
           @ show_code code @ ''. Restarting in 5s...'' @ [nl])
     \<and> (\<forall>w' s2 rest. timers s2 = (now w + 5000, i) # rest \<longrightarrow>
          step w' Timeout s2 =
            (if now w + 5000 \<le> now w' then Inr (startBot (now w') i (s2\<lparr>timers := rest\<rparr>))
             else Inr s2))"
proof -
  let ?s0 = "s\<lparr>children := (children s)[h := (children s ! h)\<lparr>exited := True\<rparr>]\<rparr>"
  let ?s' = "on_exit (now w) i code ?s0"
  have st: "step w (Exit h code) s = Inr ?s'"
    using assms by (simp add: step_def)
  have p: "map_of (processes ?s') i = None"
    by (simp add: processes_on_exit delete_conv')
  have q: "map_of (startTimes ?s') i = None"
    by (simp add: startTimes_on_exit delete_conv')
  have t: "timers ?s' = timers s @ [(now w + 5000, i)]"
    by (simp add: on_exit_def Let_def)
  have c: "console ?s' = console s @
          [(Stdout, ''['' @ timestamp (now w) @ ''] '' @
              trim (i @ ''/index.js exited with code '' @ show_code code
                    @ ''. Restarting in 5s...'' @ [nl]) @ [nl])]"
    by (simp add: on_exit_def Let_def exit_msg_def stamped_def)
  have tr: "is_numeric i \<longrightarrow>
          trim (i @ ''/index.js exited with code '' @ show_code code
                @ ''. Restarting in 5s...'' @ [nl])
          = i @ ''/index.js exited with code '' @ show_code code @ ''. Restarting in 5s...''"
    using trim_exit_msg [of i code] by (simp add: exit_msg_def)
  have f: "files ?s' = (files s)(logFile i \<mapsto> content s (logFile i) @
           ''['' @ timestamp (now w) @ ''] '' @ i @ ''/index.js exited with code ''
           @ show_code code @ ''. Restarting in 5s...'' @ [nl])"
    by (simp add: on_exit_def Let_def exit_msg_def stamped_def content_def)
  have tm: "\<forall>w' s2 rest. timers s2 = (now w + 5000, i) # rest \<longrightarrow>
          step w' Timeout s2 =
            (if now w + 5000 \<le> now w' then Inr (startBot (now w') i (s2\<lparr>timers := rest\<rparr>))
             else Inr s2)"
    by (simp add: step_def)
  from st p q t c tr f tm show ?thesis by blast
qed

theorem exit_schedules_restart_witness:
  "0 < length (children (startBot 1000 ''1'' (init Map.empty)))
   \<and> \<not> exited (children (startBot 1000 ''1'' (init Map.empty)) ! 0)
   \<and> wid (children (startBot 1000 ''1'' (init Map.empty)) ! 0) = ''1''
   \<and> \<not> isl (step \<lparr>now = 2000, dir = None\<rparr> (Exit 0 (Some 1))
               (startBot 1000 ''1'' (init Map.empty)))
   \<and> processes (projr (step \<lparr>now = 2000, dir = None\<rparr> (Exit 0 (Some 1))
               (startBot 1000 ''1'' (init Map.empty)))) = []
   \<and> timers (projr (step \<lparr>now = 2000, dir = None\<rparr> (Exit 0 (Some 1))
               (startBot 1000 ''1'' (init Map.empty)))) = [(7000, ''1'')]
   \<and> console (projr (step \<lparr>now = 2000, dir = None\<rparr> (Exit 0 (Some 1))
               (startBot 1000 ''1'' (init Map.empty)))) =
       [(Stdout, ''[1970-01-01 00:00:01] Started 1/index.js (PID: undefined)'' @ [nl]),
        (Stdout, ''[1970-01-01 00:00:02] 1/index.js exited with code 1. Restarting in 5s...'' @ [nl])]"
proof -
  let ?s = "startBot 1000 ''1'' (init Map.empty)"
  let ?w = "\<lparr>now = 2000, dir = None\<rparr>"
  have h1: "0 < length (children ?s)" by code_simp
  have h2: "\<not> exited (children ?s ! 0)" by code_simp
  have h3: "wid (children ?s ! 0) = ''1''" by code_simp
  from exit_schedules_restart [OF h1 h2 h3, of ?w "Some 1"]
  obtain s' where st: "step ?w (Exit 0 (Some 1)) ?s = Inr s'"
    and tm: "timers s' = timers ?s @ [(now ?w + 5000, ''1'')]"
    by blast
  have t0: "timers ?s = []" by code_simp
  from st have a: "\<not> isl (step ?w (Exit 0 (Some 1)) ?s)" by simp
  from st tm t0 have b: "timers (projr (step ?w (Exit 0 (Some 1)) ?s)) = [(7000, ''1'')]"
    by simp
  have c: "processes (projr (step ?w (Exit 0 (Some 1)) ?s)) = []" by code_simp
  have d: "console (projr (step ?w (Exit 0 (Some 1)) ?s)) =
       [(Stdout, ''[1970-01-01 00:00:01] Started 1/index.js (PID: undefined)'' @ [nl]),
        (Stdout, ''[1970-01-01 00:00:02] 1/index.js exited with code 1. Restarting in 5s...'' @ [nl])]"
    by code_simp
  from h1 h2 h3 a b c d show ?thesis by (intro conjI)
qed

subsection \<open>At most one handle for an id\<close>

lemma distinct_keys_count:
  "distinct (map fst al) \<Longrightarrow> length (filter (\<lambda>e. fst e = k) al) \<le> 1"
proof (induction al)
  case Nil
  show ?case by simp
next
  case (Cons a al)
  show ?case
  proof (cases "fst a = k")
    case True
    with Cons.prems have "k \<notin> fst ` set al" by auto
    then have "filter (\<lambda>e. fst e = k) al = []" by (auto simp add: filter_empty_conv)
    with True show ?thesis by simp
  next
    case False
    with Cons show ?thesis by simp
  qed
qed

text \<open>
  C5. \<open>startBot\<close> returns the state unchanged, so it spawns nothing, when
  \<open>processes\<close> already has an entry for the \<open>id\<close>. In every state the supervisor can
  reach, from its start through any events, \<open>processes\<close> holds at most one entry, and
  so at most one handle, for any \<open>id\<close>.
\<close>

theorem start_noop_at_most_one:
  "(map_of (processes s) i \<noteq> None \<longrightarrow> startBot t i s = s)
   \<and> (supervisor os w0 es = Inr s' \<longrightarrow>
        length (filter (\<lambda>e. fst e = i) (processes s')) \<le> 1)"
proof (intro conjI impI)
  assume "map_of (processes s) i \<noteq> None"
  then show "startBot t i s = s" by (simp add: startBot_def)
next
  assume "supervisor os w0 es = Inr s'"
  then have "registry_ok s'" by (rule registry_ok_supervisor)
  then have "distinct (map fst (processes s'))" by (rule registry_okD1)
  then show "length (filter (\<lambda>e. fst e = i) (processes s')) \<le> 1"
    by (rule distinct_keys_count)
qed

theorem start_noop_at_most_one_witness:
  "map_of (processes (startBot 1000 ''1'' (init Map.empty))) ''1'' \<noteq> None
   \<and> startBot 2000 ''1'' (startBot 1000 ''1'' (init Map.empty))
       = startBot 1000 ''1'' (init Map.empty)
   \<and> \<not> isl (supervisor (\<lambda>n. Some (100 + n)) \<lparr>now = 1000, dir = Some [''1'', ''2'']\<rparr>
              [(\<lparr>now = 2000, dir = Some [''1'', ''2'']\<rparr>, Tick),
               (\<lparr>now = 3000, dir = None\<rparr>, Line ''r1''),
               (\<lparr>now = 3000, dir = None\<rparr>, Timeout)])
   \<and> length (filter (\<lambda>e. fst e = ''1'')
         (processes (projr (supervisor (\<lambda>n. Some (100 + n)) \<lparr>now = 1000, dir = Some [''1'', ''2'']\<rparr>
              [(\<lparr>now = 2000, dir = Some [''1'', ''2'']\<rparr>, Tick),
               (\<lparr>now = 3000, dir = None\<rparr>, Line ''r1''),
               (\<lparr>now = 3000, dir = None\<rparr>, Timeout)])))) \<le> 1
   \<and> map fst (processes (projr (supervisor (\<lambda>n. Some (100 + n)) \<lparr>now = 1000, dir = Some [''1'', ''2'']\<rparr>
              [(\<lparr>now = 2000, dir = Some [''1'', ''2'']\<rparr>, Tick),
               (\<lparr>now = 3000, dir = None\<rparr>, Line ''r1''),
               (\<lparr>now = 3000, dir = None\<rparr>, Timeout)]))) = [''1'', ''2'']"
proof -
  let ?s = "startBot 1000 ''1'' (init Map.empty)"
  let ?r = "supervisor (\<lambda>n. Some (100 + n)) \<lparr>now = 1000, dir = Some [''1'', ''2'']\<rparr>
              [(\<lparr>now = 2000, dir = Some [''1'', ''2'']\<rparr>, Tick),
               (\<lparr>now = 3000, dir = None\<rparr>, Line ''r1''),
               (\<lparr>now = 3000, dir = None\<rparr>, Timeout)]"
  have h1: "map_of (processes ?s) ''1'' \<noteq> None" by code_simp
  have h2: "\<not> isl ?r" by code_simp
  then have h2': "?r = Inr (projr ?r)" by simp
  note t = start_noop_at_most_one [where s = ?s and i = "''1''" and t = 2000
      and os = "\<lambda>n. Some (100 + n)" and ?w0.0 = "\<lparr>now = 1000, dir = Some [''1'', ''2'']\<rparr>"
      and es = "[(\<lparr>now = 2000, dir = Some [''1'', ''2'']\<rparr>, Tick),
               (\<lparr>now = 3000, dir = None\<rparr>, Line ''r1''),
               (\<lparr>now = 3000, dir = None\<rparr>, Timeout)]" and s' = "projr ?r"]
  from t h1 have a: "startBot 2000 ''1'' ?s = ?s" by blast
  from t h2' have b: "length (filter (\<lambda>e. fst e = ''1'') (processes (projr ?r))) \<le> 1" by blast
  have c: "map fst (processes (projr ?r)) = [''1'', ''2'']" by code_simp
  from h1 a h2 b c show ?thesis by (intro conjI)
qed

subsection \<open>The two maps have the same keys\<close>

lemma keys_update:
  assumes "map fst al = map fst bl"
  shows "map fst (AList.update k v al) = map fst (AList.update k w bl)"
proof -
  have "set (map fst al) = set (map fst bl)" by (simp only: assms)
  then have "fst ` set al = fst ` set bl" by simp
  then show ?thesis by (simp only: update_keys assms)
qed

lemma keys_delete:
  assumes "map fst al = map fst bl"
  shows "map fst (AList.delete k al) = map fst (AList.delete k bl)"
  by (simp only: delete_keys assms)

lemma keys_startBot:
  assumes "map fst (processes s) = map fst (startTimes s)"
  shows "map fst (processes (startBot t i s)) = map fst (startTimes (startBot t i s))"
proof (cases "map_of (processes s) i \<noteq> None")
  case True
  then have "startBot t i s = s" by (simp add: startBot_def)
  with assms show ?thesis by (simp only:)
next
  case False
  then have p: "processes (startBot t i s) =
      AList.update i \<lparr>hid = length (children s), pid = os_pid s (length (children s))\<rparr>
        (processes s)"
    and q: "startTimes (startBot t i s) = AList.update i t (startTimes s)"
    by (simp_all add: processes_startBot startTimes_startBot)
  show ?thesis unfolding p q using assms by (rule keys_update)
qed

lemma keys_on_exit:
  assumes "map fst (processes s) = map fst (startTimes s)"
  shows "map fst (processes (on_exit t i c s)) = map fst (startTimes (on_exit t i c s))"
  unfolding processes_on_exit startTimes_on_exit using assms by (rule keys_delete)

lemma keys_stopBot:
  assumes "map fst (processes s) = map fst (startTimes s)"
  shows "map fst (processes (stopBot t i s)) = map fst (startTimes (stopBot t i s))"
proof (cases "map_of (processes s) i")
  case None
  then have p: "processes (stopBot t i s) = processes s"
    and q: "startTimes (stopBot t i s) = startTimes s"
    by (simp_all add: processes_stopBot startTimes_stopBot map_of_None_delete)
  from assms show ?thesis unfolding p q .
next
  case (Some h)
  then have p: "processes (stopBot t i s) = AList.delete i (processes s)"
    and q: "startTimes (stopBot t i s) = AList.delete i (startTimes s)"
    by (simp_all add: processes_stopBot startTimes_stopBot)
  show ?thesis unfolding p q using assms by (rule keys_delete)
qed

lemma same_keys_None:
  assumes "map fst al = map fst bl"
  shows "(map_of al k = None) = (map_of bl k = None)"
proof -
  have "set (map fst al) = set (map fst bl)" by (simp only: assms)
  then have "fst ` set al = fst ` set bl" by simp
  then show ?thesis by (simp add: map_of_eq_None_iff)
qed

text \<open>
  C9. \<open>startBot\<close>, the exit handler and \<open>stopBot\<close> each keep the keys of
  \<open>processes\<close> and of \<open>startTimes\<close> equal. In every state the supervisor can reach,
  an \<open>id\<close> has an entry in \<open>processes\<close> if and only if it has one in \<open>startTimes\<close>,
  so a registered workload has a start time.
\<close>

theorem maps_synchronized:
  "(map fst (processes s) = map fst (startTimes s) \<longrightarrow>
       map fst (processes (startBot t i s)) = map fst (startTimes (startBot t i s))
     \<and> map fst (processes (on_exit t i code s)) = map fst (startTimes (on_exit t i code s))
     \<and> map fst (processes (stopBot t i s)) = map fst (startTimes (stopBot t i s)))
   \<and> (supervisor os w0 es = Inr s' \<longrightarrow>
        (map_of (processes s') i = None) = (map_of (startTimes s') i = None)
      \<and> (\<forall>h. map_of (processes s') i = Some h \<longrightarrow> (\<exists>t0. map_of (startTimes s') i = Some t0)))"
proof (intro conjI impI allI)
  assume a: "map fst (processes s) = map fst (startTimes s)"
  from a show "map fst (processes (startBot t i s)) = map fst (startTimes (startBot t i s))"
    by (rule keys_startBot)
  from a show "map fst (processes (on_exit t i code s)) = map fst (startTimes (on_exit t i code s))"
    by (rule keys_on_exit)
  from a show "map fst (processes (stopBot t i s)) = map fst (startTimes (stopBot t i s))"
    by (rule keys_stopBot)
next
  assume "supervisor os w0 es = Inr s'"
  then have "registry_ok s'" by (rule registry_ok_supervisor)
  then have "map fst (processes s') = map fst (startTimes s')" by (rule registry_okD2)
  then show "(map_of (processes s') i = None) = (map_of (startTimes s') i = None)"
    by (rule same_keys_None)
next
  fix h
  assume "supervisor os w0 es = Inr s'" and r: "map_of (processes s') i = Some h"
  then have "registry_ok s'" by (simp add: registry_ok_supervisor)
  then have "map fst (processes s') = map fst (startTimes s')" by (rule registry_okD2)
  then have "(map_of (processes s') i = None) = (map_of (startTimes s') i = None)"
    by (rule same_keys_None)
  with r show "\<exists>t0. map_of (startTimes s') i = Some t0" by auto
qed

theorem maps_synchronized_witness:
  "map fst (processes (startBot 1000 ''1'' (init Map.empty)))
     = map fst (startTimes (startBot 1000 ''1'' (init Map.empty)))
   \<and> map fst (processes (stopBot 2000 ''1'' (startBot 1000 ''1'' (init Map.empty))))
     = map fst (startTimes (stopBot 2000 ''1'' (startBot 1000 ''1'' (init Map.empty))))
   \<and> \<not> isl (supervisor Map.empty \<lparr>now = 1000, dir = Some [''1'', ''x'', ''2'']\<rparr>
              [(\<lparr>now = 2000, dir = None\<rparr>, Line ''s1''),
               (\<lparr>now = 3000, dir = None\<rparr>, Exit 1 (Some 0))])
   \<and> map_of (processes (projr (supervisor Map.empty \<lparr>now = 1000, dir = Some [''1'', ''x'', ''2'']\<rparr>
              [(\<lparr>now = 2000, dir = None\<rparr>, Line ''s1''),
               (\<lparr>now = 3000, dir = None\<rparr>, Exit 1 (Some 0))]))) ''2'' = None
   \<and> map_of (startTimes (projr (supervisor Map.empty \<lparr>now = 1000, dir = Some [''1'', ''x'', ''2'']\<rparr>
              [(\<lparr>now = 2000, dir = None\<rparr>, Line ''s1''),
               (\<lparr>now = 3000, dir = None\<rparr>, Exit 1 (Some 0))]))) ''2'' = None"
proof -
  let ?s = "startBot 1000 ''1'' (init Map.empty)"
  let ?r = "supervisor Map.empty \<lparr>now = 1000, dir = Some [''1'', ''x'', ''2'']\<rparr>
              [(\<lparr>now = 2000, dir = None\<rparr>, Line ''s1''),
               (\<lparr>now = 3000, dir = None\<rparr>, Exit 1 (Some 0))]"
  have h1: "map fst (processes ?s) = map fst (startTimes ?s)" by code_simp
  have h2: "\<not> isl ?r" by code_simp
  then have h2': "?r = Inr (projr ?r)" by simp
  have p: "map_of (processes (projr ?r)) ''2'' = None" by code_simp
  note t = maps_synchronized [where s = ?s and t = 2000 and i = "''1''"]
  from t h1 have a: "map fst (processes (stopBot 2000 ''1'' ?s))
     = map fst (startTimes (stopBot 2000 ''1'' ?s))" by blast
  note u = maps_synchronized [where os = Map.empty
      and ?w0.0 = "\<lparr>now = 1000, dir = Some [''1'', ''x'', ''2'']\<rparr>"
      and es = "[(\<lparr>now = 2000, dir = None\<rparr>, Line ''s1''),
               (\<lparr>now = 3000, dir = None\<rparr>, Exit 1 (Some 0))]" and s' = "projr ?r" and i = "''2''"]
  from u h2' have "(map_of (processes (projr ?r)) ''2'' = None)
        = (map_of (startTimes (projr ?r)) ''2'' = None)" by blast
  with p have q: "map_of (startTimes (projr ?r)) ''2'' = None" by simp
  from h1 a h2 p q show ?thesis by (intro conjI)
qed

subsection \<open>The status table\<close>

lemma uptime_console_log [simp]: "uptime t i (console_log x s) = uptime t i s"
  by (simp add: uptime_def)

lemma status_row_console_log [simp]: "status_row t (console_log x s) i = status_row t s i"
  by (simp add: status_row_def split: option.split)

lemma fold_status_rows:
  "fold (\<lambda>i s'. console_log (status_row t s' i) s') ids s1
     = fold console_log (map (\<lambda>i. status_row t s1 i) ids) s1"
proof (induction ids arbitrary: s1)
  case Nil
  show ?case by simp
next
  case (Cons i ids)
  have "(\<lambda>j. status_row t (console_log (status_row t s1 i) s1) j) = (\<lambda>j. status_row t s1 j)"
    by simp
  with Cons.IH [of "console_log (status_row t s1 i) s1"] show ?case by simp
qed

lemma status_row_fold_console_log [simp]:
  "status_row t (fold console_log ls s) i = status_row t s i"
  by (induction ls arbitrary: s) simp_all

lemma console_fold_console_log:
  "console (fold console_log ls s) = console s @ map (\<lambda>l. (Stdout, l @ [nl])) ls"
  by (induction ls arbitrary: s) simp_all

lemma padEnd_then_space: "\<exists>rest. padEnd n i @ CHR '' '' # r = i @ CHR '' '' # rest"
proof (cases "n - length i")
  case 0
  then show ?thesis by (simp add: padEnd_def)
next
  case (Suc k)
  then show ?thesis by (simp add: padEnd_def)
qed

lemma status_row_starts: "\<exists>rest. status_row t s i = i @ CHR '' '' # rest"
proof (cases "map_of (processes s) i")
  case None
  then have "status_row t s i = padEnd 4 i @ CHR '' '' # ''STOPPED''"
    by (simp add: status_row_def)
  then show ?thesis using padEnd_then_space [of 4 i "''STOPPED''"] by simp
next
  case (Some h)
  then have "status_row t s i =
      padEnd 4 i @ CHR '' '' # (''RUNNING   '' @ padEnd 6 (show_pid (pid h)) @ '' '' @ uptime t i s)"
    by (simp add: status_row_def)
  then show ?thesis
    using padEnd_then_space [of 4 i "''RUNNING   '' @ padEnd 6 (show_pid (pid h)) @ '' '' @ uptime t i s"]
    by simp
qed

lemma status_row_id:
  assumes "is_numeric i"
  shows "takeWhile is_digit (status_row t s i) = i"
proof -
  obtain rest where r: "status_row t s i = i @ CHR '' '' # rest"
    using status_row_starts by blast
  have d: "\<And>c. c \<in> set i \<Longrightarrow> is_digit c"
    using assms by (simp add: is_numeric_def list_all_iff)
  have "\<not> is_digit CHR '' ''" by (simp add: is_digit_def)
  then have "takeWhile is_digit (i @ CHR '' '' # rest) = i"
    using d by (simp add: takeWhile_append2)
  then show ?thesis by (simp only: r)
qed

lemma status_row_inj:
  assumes "is_numeric i" and "is_numeric j" and "status_row t s i = status_row t s j"
  shows "i = j"
proof -
  have "i = takeWhile is_digit (status_row t s i)" by (simp add: status_row_id [OF assms(1)])
  also have "\<dots> = takeWhile is_digit (status_row t s j)" by (simp only: assms(3))
  also have "\<dots> = j" by (rule status_row_id [OF assms(2)])
  finally show ?thesis .
qed

lemma no_row_for_unlisted:
  assumes "is_numeric i" and "i \<notin> set names"
  shows "status_row t s i \<notin> set (map (status_row t s) (filter is_numeric names))"
proof
  assume "status_row t s i \<in> set (map (status_row t s) (filter is_numeric names))"
  then obtain j where j: "j \<in> set names" "is_numeric j" "status_row t s i = status_row t s j"
    by auto
  from status_row_inj [OF assms(1) j(2) j(3)] have "i = j" .
  with j(1) assms(2) show False by simp
qed

text \<open>
  C10. \<open>showStatus\<close> reads the directory when it is called and prints, after the three
  header lines, one row for each entry name that is a string of digits, in the order of
  the listing, and then an empty line. The registry decides only what a row says:
  \<open>STOPPED\<close> for a name without an entry in \<open>processes\<close>, \<open>RUNNING\<close> with the
  process id and the uptime for a name with one. An id that is not in the listing gets no
  row, registered or not: its row is none of the rows printed.
\<close>

theorem status_table_from_disk:
  "(dir w = Some names \<longrightarrow>
      showStatus w s =
        Inr (fold console_log
               (status_header @ map (status_row (now w) s) (filter is_numeric names) @ [[]]) s))
   \<and> console (fold console_log ls s) = console s @ map (\<lambda>l. (Stdout, l @ [nl])) ls
   \<and> (map_of (processes s) i = None \<longrightarrow> status_row t s i = padEnd 4 i @ '' STOPPED'')
   \<and> (map_of (processes s) i = Some h \<longrightarrow>
        status_row t s i =
          padEnd 4 i @ '' RUNNING   '' @ padEnd 6 (show_pid (pid h)) @ '' '' @ uptime t i s)
   \<and> (is_numeric i \<and> i \<notin> set names \<longrightarrow>
        status_row (now w) s i
          \<notin> set (map (status_row (now w) s) (filter is_numeric names)))"
proof (intro conjI impI)
  assume d: "dir w = Some names"
  have "fold (\<lambda>i s'. console_log (status_row (now w) s' i) s') (filter is_numeric names)
          (fold console_log status_header s)
        = fold console_log (map (status_row (now w) s) (filter is_numeric names))
          (fold console_log status_header s)"
    by (simp add: fold_status_rows)
  with d show "showStatus w s =
        Inr (fold console_log
               (status_header @ map (status_row (now w) s) (filter is_numeric names) @ [[]]) s)"
    by (simp add: showStatus_def listProjects_def Let_def)
next
  show "console (fold console_log ls s) = console s @ map (\<lambda>l. (Stdout, l @ [nl])) ls"
    by (rule console_fold_console_log)
next
  assume "map_of (processes s) i = None"
  then show "status_row t s i = padEnd 4 i @ '' STOPPED''" by (simp add: status_row_def)
next
  assume "map_of (processes s) i = Some h"
  then show "status_row t s i =
          padEnd 4 i @ '' RUNNING   '' @ padEnd 6 (show_pid (pid h)) @ '' '' @ uptime t i s"
    by (simp add: status_row_def)
next
  assume "is_numeric i \<and> i \<notin> set names"
  then have "is_numeric i" and "i \<notin> set names" by (rule conjunct1, rule conjunct2)
  then show "status_row (now w) s i
          \<notin> set (map (status_row (now w) s) (filter is_numeric names))"
    by (rule no_row_for_unlisted)
qed

theorem status_table_from_disk_witness:
  "dir \<lparr>now = 3662000, dir = Some [''2'', ''logs'', ''3'']\<rparr> = Some [''2'', ''logs'', ''3'']
   \<and> map_of (processes (fold (startBot 1000) [''1'', ''2''] (init (\<lambda>n. Some (100 + n))))) ''1''
       = Some \<lparr>hid = 0, pid = Some 100\<rparr>
   \<and> map_of (processes (fold (startBot 1000) [''1'', ''2''] (init (\<lambda>n. Some (100 + n))))) ''3''
       = None
   \<and> \<not> isl (showStatus \<lparr>now = 3662000, dir = Some [''2'', ''logs'', ''3'']\<rparr>
               (fold (startBot 1000) [''1'', ''2''] (init (\<lambda>n. Some (100 + n)))))
   \<and> drop 2 (console (projr (showStatus \<lparr>now = 3662000, dir = Some [''2'', ''logs'', ''3'']\<rparr>
               (fold (startBot 1000) [''1'', ''2''] (init (\<lambda>n. Some (100 + n)))))))
       = [(Stdout, [nl] @ ''Bot Status:'' @ [nl] @ [nl]),
          (Stdout, ''ID   Status     PID     Uptime'' @ [nl]),
          (Stdout, ''--------------------------------------'' @ [nl]),
          (Stdout, ''2    RUNNING   101    1h 1m 1s'' @ [nl]),
          (Stdout, ''3    STOPPED'' @ [nl]),
          (Stdout, [nl])]"
proof -
  let ?w = "\<lparr>now = 3662000, dir = Some [''2'', ''logs'', ''3'']\<rparr>"
  let ?s = "fold (startBot 1000) [''1'', ''2''] (init (\<lambda>n. Some (100 + n)))"
  have h: "dir ?w = Some [''2'', ''logs'', ''3'']" by simp
  have r1: "map_of (processes ?s) ''1'' = Some \<lparr>hid = 0, pid = Some 100\<rparr>" by code_simp
  have r3: "map_of (processes ?s) ''3'' = None" by code_simp
  from status_table_from_disk [where w = ?w and s = ?s and names = "[''2'', ''logs'', ''3'']"] h
  have st: "showStatus ?w ?s =
        Inr (fold console_log
               (status_header @ map (status_row (now ?w) ?s)
                  (filter is_numeric [''2'', ''logs'', ''3'']) @ [[]]) ?s)"
    by blast
  then have a: "\<not> isl (showStatus ?w ?s)" by simp
  have "drop 2 (console (fold console_log
               (status_header @ map (status_row (now ?w) ?s)
                  (filter is_numeric [''2'', ''logs'', ''3'']) @ [[]]) ?s))
       = [(Stdout, [nl] @ ''Bot Status:'' @ [nl] @ [nl]),
          (Stdout, ''ID   Status     PID     Uptime'' @ [nl]),
          (Stdout, ''--------------------------------------'' @ [nl]),
          (Stdout, ''2    RUNNING   101    1h 1m 1s'' @ [nl]),
          (Stdout, ''3    STOPPED'' @ [nl]),
          (Stdout, [nl])]"
    by code_simp
  with st have b: "drop 2 (console (projr (showStatus ?w ?s)))
       = [(Stdout, [nl] @ ''Bot Status:'' @ [nl] @ [nl]),
          (Stdout, ''ID   Status     PID     Uptime'' @ [nl]),
          (Stdout, ''--------------------------------------'' @ [nl]),
          (Stdout, ''2    RUNNING   101    1h 1m 1s'' @ [nl]),
          (Stdout, ''3    STOPPED'' @ [nl]),
          (Stdout, [nl])]"
    by (simp only: sum.sel)
  from h r1 r3 a b show ?thesis by (intro conjI)
qed

subsection \<open>Discovery when the directory cannot be read\<close>

text \<open>
  C2, as the program has it. \<open>listProjects\<close> returns the entry names that are strings
  of digits when the directory can be read. When \<open>readdirSync\<close> throws, nothing catches
  it: \<open>listProjects\<close> raises instead of returning the empty list, and with it the
  interval's handler, the first pass at start-up and \<open>showStatus\<close>. Each raises in the
  very state it was entered in: no workload has been started or stopped, nothing has been
  printed or logged. The event loop ends there, whatever events would have followed.
\<close>

theorem listProjects_raises_on_read_failure:
  "listProjects (w\<lparr>dir := Some names\<rparr>) = Inr (filter is_numeric names)
   \<and> listProjects (w\<lparr>dir := None\<rparr>) = Inl ReaddirError
   \<and> tick (w\<lparr>dir := None\<rparr>) s = Inl (ReaddirError, s)
   \<and> step (w\<lparr>dir := None\<rparr>) Tick s = Inl (ReaddirError, s)
   \<and> run s ((w\<lparr>dir := None\<rparr>, Tick) # es) = Inl (ReaddirError, s)
   \<and> startup (w\<lparr>dir := None\<rparr>) s = Inl (ReaddirError, s)
   \<and> showStatus (w\<lparr>dir := None\<rparr>) s = Inl (ReaddirError, s)"
  by (simp add: listProjects_def tick_def step_def startup_def showStatus_def)

theorem listProjects_read_failure_counterexample:
  "listProjects \<lparr>now = 0, dir = None\<rparr> \<noteq> Inr []
   \<and> listProjects \<lparr>now = 0, dir = None\<rparr> = Inl ReaddirError
   \<and> isl (step \<lparr>now = 0, dir = None\<rparr> Tick (startBot 0 ''1'' (init Map.empty)))
   \<and> isl (run (startBot 0 ''1'' (init Map.empty))
           [(\<lparr>now = 0, dir = None\<rparr>, Tick),
            (\<lparr>now = 1, dir = Some [''1'']\<rparr>, Line ''ls'')])"
  by (simp add: listProjects_def tick_def step_def)

subsection \<open>Stopping a workload\<close>

text \<open>
  C1, evaluated. Workload \<open>1\<close> runs as child 0. The operator types \<open>s1\<close>: the child
  is sent SIGTERM and the registry is empty. The child then exits, its exit listener is
  still attached and sets the restart timer; when the timer runs, \<open>startBot\<close> finds no
  entry and spawns child 1 for the same \<open>id\<close>. No line was typed and no interval
  elapsed in between.
\<close>

theorem stop_is_followed_by_restart:
  "processes (projr (run (startBot 1000 ''1'' (init (\<lambda>n. Some (100 + n))))
      [(\<lparr>now = 2000, dir = None\<rparr>, Line ''s1'')])) = []
   \<and> children (projr (run (startBot 1000 ''1'' (init (\<lambda>n. Some (100 + n))))
      [(\<lparr>now = 2000, dir = None\<rparr>, Line ''s1'')]))
       = [\<lparr>wid = ''1'', signalled = True, exited = False\<rparr>]
   \<and> timers (projr (run (startBot 1000 ''1'' (init (\<lambda>n. Some (100 + n))))
      [(\<lparr>now = 2000, dir = None\<rparr>, Line ''s1''),
       (\<lparr>now = 2010, dir = None\<rparr>, Exit 0 None)])) = [(7010, ''1'')]
   \<and> \<not> isl (run (startBot 1000 ''1'' (init (\<lambda>n. Some (100 + n))))
      [(\<lparr>now = 2000, dir = None\<rparr>, Line ''s1''),
       (\<lparr>now = 2010, dir = None\<rparr>, Exit 0 None),
       (\<lparr>now = 7010, dir = None\<rparr>, Timeout)])
   \<and> processes (projr (run (startBot 1000 ''1'' (init (\<lambda>n. Some (100 + n))))
      [(\<lparr>now = 2000, dir = None\<rparr>, Line ''s1''),
       (\<lparr>now = 2010, dir = None\<rparr>, Exit 0 None),
       (\<lparr>now = 7010, dir = None\<rparr>, Timeout)])) = [(''1'', \<lparr>hid = 1, pid = Some 101\<rparr>)]
   \<and> children (projr (run (startBot 1000 ''1'' (init (\<lambda>n. Some (100 + n))))
      [(\<lparr>now = 2000, dir = None\<rparr>, Line ''s1''),
       (\<lparr>now = 2010, dir = None\<rparr>, Exit 0 None),
       (\<lparr>now = 7010, dir = None\<rparr>, Timeout)]))
       = [\<lparr>wid = ''1'', signalled = True, exited = True\<rparr>,
          \<lparr>wid = ''1'', signalled = False, exited = False\<rparr>]
   \<and> console (projr (run (startBot 1000 ''1'' (init (\<lambda>n. Some (100 + n))))
      [(\<lparr>now = 2000, dir = None\<rparr>, Line ''s1''),
       (\<lparr>now = 2010, dir = None\<rparr>, Exit 0 None),
       (\<lparr>now = 7010, dir = None\<rparr>, Timeout)]))
       = [(Stdout, ''[1970-01-01 00:00:01] Started 1/index.js (PID: 100)'' @ [nl]),
          (Stdout, ''[1970-01-01 00:00:02] Stopped bot 1'' @ [nl]),
          (Stdout, ''[1970-01-01 00:00:02] 1/index.js exited with code null. Restarting in 5s...'' @ [nl]),
          (Stdout, ''[1970-01-01 00:00:07] Started 1/index.js (PID: 101)'' @ [nl])]"
  by (intro conjI; code_simp)

subsection \<open>The line 0\<close>

text \<open>
  C3, evaluated. The line \<open>0\<close> is a string of digits, so the first branch of the line
  handler takes it: \<open>logStream\<close> becomes the string \<open>0\<close>, and the branch that would set
  it to \<open>null\<close> is never reached. With a workload directory named \<open>0\<close>, the output of
  that workload is echoed after the operator typed \<open>0\<close>.
\<close>

theorem line_zero_selects_workload_zero:
  "on_line w ''0'' s = Inr (s\<lparr>logStream := Some ''0''\<rparr>)
   \<and> logStream (projr (run (startBot 1000 ''0'' (init (\<lambda>n. Some (100 + n))))
      [(\<lparr>now = 2000, dir = None\<rparr>, Line ''0'')])) = Some ''0''
   \<and> console (projr (run (startBot 1000 ''0'' (init (\<lambda>n. Some (100 + n))))
      [(\<lparr>now = 2000, dir = None\<rparr>, Line ''0''),
       (\<lparr>now = 3000, dir = None\<rparr>, Data 0 Stdout ''hello'')]))
       = [(Stdout, ''[1970-01-01 00:00:01] Started 0/index.js (PID: 100)'' @ [nl]),
          (Stdout, ''[1970-01-01 00:00:03] [0] hello'')]"
proof (intro conjI)
  have "is_numeric ''0''" by (simp add: is_numeric_def is_digit_def)
  then show "on_line w ''0'' s = Inr (s\<lparr>logStream := Some ''0''\<rparr>)"
    by (simp add: on_line_def)
next
  show "logStream (projr (run (startBot 1000 ''0'' (init (\<lambda>n. Some (100 + n))))
      [(\<lparr>now = 2000, dir = None\<rparr>, Line ''0'')])) = Some ''0''"
    by code_simp
next
  show "console (projr (run (startBot 1000 ''0'' (init (\<lambda>n. Some (100 + n))))
      [(\<lparr>now = 2000, dir = None\<rparr>, Line ''0''),
       (\<lparr>now = 3000, dir = None\<rparr>, Data 0 Stdout ''hello'')]))
       = [(Stdout, ''[1970-01-01 00:00:01] Started 0/index.js (PID: 100)'' @ [nl]),
          (Stdout, ''[1970-01-01 00:00:03] [0] hello'')]"
    by code_simp
qed

end
